theory Spec2Isabelle
  imports Main "HOL-Library.Word" "HOL-Library.Monad_Syntax"
begin

unbundle bit_operations_syntax

section \<open>The I2C transport of the sensor hub: data model\<close>

text \<open>
  The development follows \<^verbatim>\<open>src/app/i2c_hal.c\<close>. The file keeps all of its state in
  file-scope variables; here they are the fields of one record that every function takes
  and returns. Integer fields have the width the C declaration gives them.
\<close>

type_synonym u8 = "8 word"
type_synonym u16 = "16 word"
type_synonym u32 = "32 word"

datatype BusState_e =
    BUS_INIT
  | BUS_IDLE
  | BUS_READING_LEN
  | BUS_GOT_LEN
  | BUS_READING_TRANSFER
  | BUS_WRITING
  | BUS_READING_DFU
  | BUS_WRITING_DFU

text \<open>
  Modelled from the spec: the header \<^verbatim>\<open>sh2_err.h\<close> with the values of the status codes
  is not among the sources. The spec names a success value, an already-open error and a
  bad-parameter error that is distinct from every byte count; the codes therefore stay
  symbolic. A function that returns a byte count or an error in one C \<^verbatim>\<open>int\<close> returns
  \<open>Inr\<close> of the count or \<open>Inl\<close> of the code.
\<close>

datatype sh2_err = SH2_OK | SH2_ERR | SH2_ERR_BAD_PARAM

text \<open>
  A transfer handed to the bus engine by \<^verbatim>\<open>HAL_I2C_Master_Receive_IT\<close> or
  \<^verbatim>\<open>HAL_I2C_Master_Transmit_IT\<close>: the device address and the size, both 16 bits wide in
  the prototypes of the vendor library.
\<close>

datatype xfer = Receive u16 u16 | Transmit u16 u16

record hal =
  isOpen :: bool
  i2cBusState :: BusState_e
  rxTimestamp_uS :: u32
  rxBuf :: "u8 list"
  rxBufLen :: u32
  payloadLen :: u16
  txBuf :: "u8 list"
  rxDataReady :: bool
  discards :: u32
  i2cAddr :: u16
  inReset :: bool
  \<comment> \<open>the hardware the file drives\<close>
  exti_irq :: bool      \<comment> \<open>NVIC enable of EXTI15_10 (the INTN line)\<close>
  i2c_irq :: bool       \<comment> \<open>NVIC enable of I2C1_EV and I2C1_ER\<close>
  i2c_up :: bool        \<comment> \<open>I2C1 initialised\<close>
  tim2_run :: bool      \<comment> \<open>TIM2 counting\<close>
  rstn_pin :: bool
  bootn_pin :: bool
  ps0_waken_pin :: bool
  ps1_pin :: bool
  clksel0_pin :: bool
  xfers :: "xfer list"  \<comment> \<open>transfers started and not yet completed, oldest first\<close>
  tick :: nat           \<comment> \<open>position in the readings of the microsecond counter\<close>

text \<open>
  What the board and the headers outside the file provide: the two buffer capacities
  (the macros \<^verbatim>\<open>SH2_HAL_MAX_TRANSFER_IN\<close> and \<^verbatim>\<open>SH2_HAL_MAX_TRANSFER_OUT\<close> of
  \<^verbatim>\<open>sh2_hal.h\<close>, which is not among the sources), the successive readings of the
  free-running TIM2 counter, and the moments at which the peripheral pulls INTN low.
\<close>

record platform =
  SH2_HAL_MAX_TRANSFER_IN :: nat
  SH2_HAL_MAX_TRANSFER_OUT :: nat
  clock :: "nat \<Rightarrow> u32"
  intn :: "nat \<Rightarrow> bool"

definition RESET_DELAY_US :: u32 where "RESET_DELAY_US = 10000"
definition START_DELAY_US :: u32 where "START_DELAY_US = 2000000"
definition DFU_BOOT_DELAY_US :: u32 where "DFU_BOOT_DELAY_US = 50000"
definition READ_LEN :: u16 where "READ_LEN = 2"
definition ADDR_SH2_0 :: u16 where "ADDR_SH2_0 = 0x4A"
definition ADDR_DFU_0 :: u16 where "ADDR_DFU_0 = 0x28"

text \<open>
  \<^verbatim>\<open>memcpy(dst, src, n)\<close> on byte lists: the first \<open>n\<close> bytes of \<open>dst\<close> are replaced by
  those of \<open>src\<close>. The C contract is that both hold at least \<open>n\<close> bytes.
\<close>

definition memcpy :: "u8 list \<Rightarrow> u8 list \<Rightarrow> nat \<Rightarrow> u8 list" where
  "memcpy dst src n = take n src @ drop n dst"

section \<open>Private methods\<close>

definition enableInts :: "hal \<Rightarrow> hal" where
  "enableInts s = s\<lparr>exti_irq := True, i2c_irq := True\<rparr>"

definition disableInts :: "hal \<Rightarrow> hal" where
  "disableInts s = s\<lparr>i2c_irq := False, exti_irq := False\<rparr>"

definition enableI2cInts :: "hal \<Rightarrow> hal" where
  "enableI2cInts s = s\<lparr>i2c_irq := True\<rparr>"

definition disableI2cInts :: "hal \<Rightarrow> hal" where
  "disableI2cInts s = s\<lparr>i2c_irq := False\<rparr>"

definition hal_init_gpio :: "hal \<Rightarrow> hal" where
  "hal_init_gpio s = s\<lparr>ps0_waken_pin := False, ps1_pin := True, rstn_pin := False,
     bootn_pin := False, clksel0_pin := False\<rparr>"

definition hal_init_i2c :: "hal \<Rightarrow> hal" where
  "hal_init_i2c s = s\<lparr>i2c_up := True\<rparr>"

definition hal_init_timer :: "hal \<Rightarrow> hal" where
  "hal_init_timer s = s\<lparr>tim2_run := True\<rparr>"

definition hal_init_hw :: "hal \<Rightarrow> hal" where
  "hal_init_hw s = hal_init_i2c (hal_init_gpio (hal_init_timer s))"

definition bootn :: "bool \<Rightarrow> hal \<Rightarrow> hal" where
  "bootn state s = s\<lparr>bootn_pin := state\<rparr>"

definition rstn :: "bool \<Rightarrow> hal \<Rightarrow> hal" where
  "rstn state s = s\<lparr>rstn_pin := state\<rparr>"

definition ps0_waken :: "bool \<Rightarrow> hal \<Rightarrow> hal" where
  "ps0_waken state s = s\<lparr>ps0_waken_pin := state\<rparr>"

definition ps1 :: "bool \<Rightarrow> hal \<Rightarrow> hal" where
  "ps1 state s = s\<lparr>ps1_pin := state\<rparr>"

definition timeNowUs :: "platform \<Rightarrow> hal \<Rightarrow> u32" where
  "timeNowUs p s = clock p (tick s)"

text \<open>The two entry points of the bus engine append to the outstanding transfers.\<close>

definition HAL_I2C_Master_Receive_IT :: "u16 \<Rightarrow> u16 \<Rightarrow> hal \<Rightarrow> hal" where
  "HAL_I2C_Master_Receive_IT addr sz s = s\<lparr>xfers := xfers s @ [Receive addr sz]\<rparr>"

definition HAL_I2C_Master_Transmit_IT :: "u16 \<Rightarrow> u16 \<Rightarrow> hal \<Rightarrow> hal" where
  "HAL_I2C_Master_Transmit_IT addr sz s = s\<lparr>xfers := xfers s @ [Transmit addr sz]\<rparr>"

section \<open>Callbacks for ISR, I2C operations\<close>

definition HAL_I2C_MasterRxCpltCallback :: "platform \<Rightarrow> hal \<Rightarrow> hal" where
  "HAL_I2C_MasterRxCpltCallback p s =
     (if i2cBusState s = BUS_READING_LEN then
        (let len = (ucast (((ucast (rxBuf s ! 0) :: u32) + push_bit 8 (ucast (rxBuf s ! 1)))
                      AND NOT 0x8000) :: u16)
         in (if unat len > SH2_HAL_MAX_TRANSFER_IN p
             then s\<lparr>payloadLen := of_nat (SH2_HAL_MAX_TRANSFER_IN p)\<rparr>
             else s\<lparr>payloadLen := len\<rparr>)\<lparr>i2cBusState := BUS_GOT_LEN\<rparr>)
      else if i2cBusState s = BUS_READING_TRANSFER then
        s\<lparr>rxBufLen := ucast (payloadLen s), i2cBusState := BUS_IDLE\<rparr>
      else if i2cBusState s = BUS_READING_DFU then
        s\<lparr>rxBufLen := ucast (payloadLen s), i2cBusState := BUS_IDLE\<rparr>
      else s)"

definition HAL_I2C_MasterTxCpltCallback :: "hal \<Rightarrow> hal" where
  "HAL_I2C_MasterTxCpltCallback s =
     (if i2cBusState s = BUS_WRITING then s\<lparr>i2cBusState := BUS_IDLE\<rparr>
      else if i2cBusState s = BUS_WRITING_DFU then s\<lparr>i2cBusState := BUS_IDLE\<rparr>
      else s)"

definition HAL_GPIO_EXTI_Callback :: "platform \<Rightarrow> hal \<Rightarrow> hal" where
  "HAL_GPIO_EXTI_Callback p s =
     (if i2cBusState s = BUS_INIT then s
      else
        (let s1 = s\<lparr>rxTimestamp_uS := timeNowUs p s, inReset := False\<rparr>
         in if i2cBusState s1 = BUS_IDLE then
              (let s2 = (if rxBufLen s1 > 0
                         then s1\<lparr>discards := discards s1 + 1, rxBufLen := 0\<rparr>
                         else s1)
               in HAL_I2C_Master_Receive_IT (i2cAddr s2) READ_LEN
                    (s2\<lparr>i2cBusState := BUS_READING_LEN\<rparr>))
            else if i2cBusState s1 = BUS_GOT_LEN then
              HAL_I2C_Master_Receive_IT (i2cAddr s1) (payloadLen s1)
                (s1\<lparr>i2cBusState := BUS_READING_TRANSFER\<rparr>)
            else s1\<lparr>rxDataReady := True\<rparr>))"

section \<open>SH2 HAL methods: read and write\<close>

text \<open>
  \<^verbatim>\<open>read\<close> takes the client's buffer, its capacity and the old content of \<^verbatim>\<open>*t\<close>, and
  returns the result, the client's buffer, \<^verbatim>\<open>*t\<close> and the state. The definitions of
  this section and the next are the calls with no interrupt handler running inside
  them; the calls with the edge interrupt live follow after them.
\<close>

definition sh2_i2c_hal_read ::
  "u8 list \<Rightarrow> u32 \<Rightarrow> u32 \<Rightarrow> hal \<Rightarrow> (sh2_err + u32) \<times> u8 list \<times> u32 \<times> hal" where
  "sh2_i2c_hal_read pBuffer len t s =
     (let s1 = disableInts s;
          (retval, pBuffer', t', s2) =
            (if rxBufLen s1 > 0 then
               (if len < rxBufLen s1
                then (Inl SH2_ERR_BAD_PARAM, pBuffer, t, s1\<lparr>rxBufLen := 0\<rparr>)
                else (Inr (rxBufLen s1), memcpy pBuffer (rxBuf s1) (unat (rxBufLen s1)),
                      rxTimestamp_uS s1, s1\<lparr>rxBufLen := 0\<rparr>))
             else (Inr 0, pBuffer, t, s1));
          s3 = enableInts s2;
          s4 = (if rxDataReady s3 then
                  (if i2cBusState s3 = BUS_IDLE then
                     HAL_I2C_Master_Receive_IT (i2cAddr s3) READ_LEN
                       (s3\<lparr>rxDataReady := False, i2cBusState := BUS_READING_LEN\<rparr>)
                   else if i2cBusState s3 = BUS_GOT_LEN then
                     HAL_I2C_Master_Receive_IT (i2cAddr s3) (payloadLen s3)
                       (s3\<lparr>rxDataReady := False, i2cBusState := BUS_READING_TRANSFER\<rparr>)
                   else s3)
                else s3)
      in (retval, pBuffer', t', s4))"

text \<open>A null \<^verbatim>\<open>pBuffer\<close> is \<open>None\<close>.\<close>

definition sh2_i2c_hal_write ::
  "platform \<Rightarrow> u8 list option \<Rightarrow> u32 \<Rightarrow> hal \<Rightarrow> (sh2_err + u32) \<times> hal" where
  "sh2_i2c_hal_write p pBuffer len s =
     (case pBuffer of
        None \<Rightarrow> (Inl SH2_ERR_BAD_PARAM, s)
      | Some buf \<Rightarrow>
          if len = 0 \<or> unat len > SH2_HAL_MAX_TRANSFER_OUT p then (Inl SH2_ERR_BAD_PARAM, s)
          else
            (let s1 = disableI2cInts s;
                 (retval, s2) =
                   (if i2cBusState s1 = BUS_IDLE then
                      (Inr len,
                       HAL_I2C_Master_Transmit_IT (i2cAddr s1) (ucast len)
                         (s1\<lparr>i2cBusState := BUS_WRITING,
                             txBuf := memcpy (txBuf s1) buf (unat len)\<rparr>))
                    else (Inr 0, s1))
             in (retval, enableI2cInts s2)))"

section \<open>DFU HAL methods: read and write\<close>

definition dfu_i2c_hal_read ::
  "u8 list \<Rightarrow> u32 \<Rightarrow> u32 \<Rightarrow> hal \<Rightarrow> (sh2_err + u32) \<times> u8 list \<times> u32 \<times> hal" where
  "dfu_i2c_hal_read pBuffer len t s =
     (if i2cBusState s \<noteq> BUS_READING_DFU \<and> rxBufLen s > 0 then
        (if len < rxBufLen s
         then (Inl SH2_ERR_BAD_PARAM, pBuffer, t, s\<lparr>rxBufLen := 0\<rparr>)
         else (Inr (rxBufLen s), memcpy pBuffer (rxBuf s) (unat (rxBufLen s)),
               rxTimestamp_uS s, s\<lparr>rxBufLen := 0\<rparr>))
      else
        (if i2cBusState s = BUS_IDLE then
           (Inr 0, pBuffer, t,
            HAL_I2C_Master_Receive_IT (i2cAddr s) (ucast len)
              (s\<lparr>i2cBusState := BUS_READING_DFU, payloadLen := ucast len\<rparr>))
         else (Inr 0, pBuffer, t, s)))"

definition dfu_i2c_hal_write ::
  "platform \<Rightarrow> u8 list option \<Rightarrow> u32 \<Rightarrow> hal \<Rightarrow> (sh2_err + u32) \<times> hal" where
  "dfu_i2c_hal_write p pBuffer len s =
     (case pBuffer of
        None \<Rightarrow> (Inl SH2_ERR_BAD_PARAM, s)
      | Some buf \<Rightarrow>
          if len = 0 \<or> unat len > SH2_HAL_MAX_TRANSFER_OUT p then (Inl SH2_ERR_BAD_PARAM, s)
          else
            (let s1 = disableI2cInts s;
                 (retval, s2) =
                   (if i2cBusState s1 = BUS_IDLE then
                      (Inr len,
                       HAL_I2C_Master_Transmit_IT (i2cAddr s1) (ucast len)
                         (s1\<lparr>i2cBusState := BUS_WRITING_DFU,
                             txBuf := memcpy (txBuf s1) buf (unat len)\<rparr>))
                    else (Inr 0, s1))
             in (retval, enableI2cInts s2)))"

section \<open>Client calls with the edge interrupt live\<close>

text \<open>
  The client calls run in the mainline code, and the edge handler can run inside them
  wherever its interrupt is not masked. \<^verbatim>\<open>sh2_i2c_hal_write\<close> and
  \<^verbatim>\<open>dfu_i2c_hal_write\<close> mask only the two I2C interrupts, \<^verbatim>\<open>dfu_i2c_hal_read\<close>
  masks nothing, and \<^verbatim>\<open>sh2_i2c_hal_read\<close> tests the bus state and starts the deferred
  read after \<^verbatim>\<open>enableInts()\<close>. The definitions below are the calls once more, line
  for line, with the points made explicit at which an edge changes the outcome: between
  a test of the bus state and the assignment that follows it (\<open>edge\<close>), and, for the
  read of the normal instance, at \<^verbatim>\<open>enableInts()\<close>, where an edge that fell during the
  masked part is taken (\<open>pend\<close>). An edge anywhere else in a call has the effect of an
  edge just before or just after the call. Without an edge the definitions are the ones
  above.
\<close>

definition take_intn :: "platform \<Rightarrow> bool \<Rightarrow> hal \<Rightarrow> hal" where
  "take_intn p edge s = (if edge \<and> exti_irq s then HAL_GPIO_EXTI_Callback p s else s)"

definition sh2_i2c_hal_read_irq ::
  "platform \<Rightarrow> bool \<Rightarrow> bool \<Rightarrow> u8 list \<Rightarrow> u32 \<Rightarrow> u32 \<Rightarrow> hal
     \<Rightarrow> (sh2_err + u32) \<times> u8 list \<times> u32 \<times> hal" where
  "sh2_i2c_hal_read_irq p pend edge pBuffer len t s =
     (let s1 = disableInts s;
          (retval, pBuffer', t', s2) =
            (if rxBufLen s1 > 0 then
               (if len < rxBufLen s1
                then (Inl SH2_ERR_BAD_PARAM, pBuffer, t, s1\<lparr>rxBufLen := 0\<rparr>)
                else (Inr (rxBufLen s1), memcpy pBuffer (rxBuf s1) (unat (rxBufLen s1)),
                      rxTimestamp_uS s1, s1\<lparr>rxBufLen := 0\<rparr>))
             else (Inr 0, pBuffer, t, s1));
          s3 = take_intn p pend (enableInts s2);
          s4 = (if rxDataReady s3 then
                  (if i2cBusState s3 = BUS_IDLE then
                     (let s3' = take_intn p edge s3
                      in HAL_I2C_Master_Receive_IT (i2cAddr s3') READ_LEN
                           (s3'\<lparr>rxDataReady := False, i2cBusState := BUS_READING_LEN\<rparr>))
                   else if i2cBusState s3 = BUS_GOT_LEN then
                     (let s3' = take_intn p edge s3
                      in HAL_I2C_Master_Receive_IT (i2cAddr s3') (payloadLen s3')
                           (s3'\<lparr>rxDataReady := False, i2cBusState := BUS_READING_TRANSFER\<rparr>))
                   else s3)
                else s3)
      in (retval, pBuffer', t', s4))"

definition sh2_i2c_hal_write_irq ::
  "platform \<Rightarrow> bool \<Rightarrow> u8 list option \<Rightarrow> u32 \<Rightarrow> hal \<Rightarrow> (sh2_err + u32) \<times> hal" where
  "sh2_i2c_hal_write_irq p edge pBuffer len s =
     (case pBuffer of
        None \<Rightarrow> (Inl SH2_ERR_BAD_PARAM, s)
      | Some buf \<Rightarrow>
          if len = 0 \<or> unat len > SH2_HAL_MAX_TRANSFER_OUT p then (Inl SH2_ERR_BAD_PARAM, s)
          else
            (let s1 = disableI2cInts s;
                 (retval, s2) =
                   (if i2cBusState s1 = BUS_IDLE then
                      (let s1' = take_intn p edge s1
                       in (Inr len,
                           HAL_I2C_Master_Transmit_IT (i2cAddr s1') (ucast len)
                             (s1'\<lparr>i2cBusState := BUS_WRITING,
                                  txBuf := memcpy (txBuf s1') buf (unat len)\<rparr>)))
                    else (Inr 0, s1))
             in (retval, enableI2cInts s2)))"

definition dfu_i2c_hal_read_irq ::
  "platform \<Rightarrow> bool \<Rightarrow> u8 list \<Rightarrow> u32 \<Rightarrow> u32 \<Rightarrow> hal
     \<Rightarrow> (sh2_err + u32) \<times> u8 list \<times> u32 \<times> hal" where
  "dfu_i2c_hal_read_irq p edge pBuffer len t s =
     (if i2cBusState s \<noteq> BUS_READING_DFU \<and> rxBufLen s > 0 then
        (if len < rxBufLen s
         then (Inl SH2_ERR_BAD_PARAM, pBuffer, t, s\<lparr>rxBufLen := 0\<rparr>)
         else (Inr (rxBufLen s), memcpy pBuffer (rxBuf s) (unat (rxBufLen s)),
               rxTimestamp_uS s, s\<lparr>rxBufLen := 0\<rparr>))
      else
        (if i2cBusState s = BUS_IDLE then
           (let s' = take_intn p edge s
            in (Inr 0, pBuffer, t,
                HAL_I2C_Master_Receive_IT (i2cAddr s') (ucast len)
                  (s'\<lparr>i2cBusState := BUS_READING_DFU, payloadLen := ucast len\<rparr>)))
         else (Inr 0, pBuffer, t, s)))"

definition dfu_i2c_hal_write_irq ::
  "platform \<Rightarrow> bool \<Rightarrow> u8 list option \<Rightarrow> u32 \<Rightarrow> hal \<Rightarrow> (sh2_err + u32) \<times> hal" where
  "dfu_i2c_hal_write_irq p edge pBuffer len s =
     (case pBuffer of
        None \<Rightarrow> (Inl SH2_ERR_BAD_PARAM, s)
      | Some buf \<Rightarrow>
          if len = 0 \<or> unat len > SH2_HAL_MAX_TRANSFER_OUT p then (Inl SH2_ERR_BAD_PARAM, s)
          else
            (let s1 = disableI2cInts s;
                 (retval, s2) =
                   (if i2cBusState s1 = BUS_IDLE then
                      (let s1' = take_intn p edge s1
                       in (Inr len,
                           HAL_I2C_Master_Transmit_IT (i2cAddr s1') (ucast len)
                             (s1'\<lparr>i2cBusState := BUS_WRITING_DFU,
                                  txBuf := memcpy (txBuf s1') buf (unat len)\<rparr>)))
                    else (Inr 0, s1))
             in (retval, enableI2cInts s2)))"

section \<open>Busy waiting\<close>

text \<open>
  Between two readings of the counter in a busy-wait loop time moves on by one position
  of the clock readings, and the INTN handler runs if the line fell at that moment and
  its interrupt is enabled. The loops below are the only places where the mainline code
  waits; other interrupts are not delivered inside a call.
\<close>

definition poll :: "platform \<Rightarrow> hal \<Rightarrow> hal" where
  "poll p s =
     (let s' = s\<lparr>tick := tick s + 1\<rparr>
      in if intn p (tick s') \<and> exti_irq s' then HAL_GPIO_EXTI_Callback p s' else s')"

partial_function (option) delay_loop :: "platform \<Rightarrow> u32 \<Rightarrow> u32 \<Rightarrow> u32 \<Rightarrow> hal \<Rightarrow> hal option" where
  "delay_loop p t start now s =
     (if now - start < t
      then (let s' = poll p s in delay_loop p t start (timeNowUs p s') s')
      else Some s)"

definition delay_us :: "platform \<Rightarrow> u32 \<Rightarrow> hal \<Rightarrow> hal option" where
  "delay_us p t s = (let now = timeNowUs p s; start = now in delay_loop p t start now s)"

partial_function (option) reset_delay_loop ::
  "platform \<Rightarrow> u32 \<Rightarrow> u32 \<Rightarrow> u32 \<Rightarrow> hal \<Rightarrow> hal option" where
  "reset_delay_loop p t start now s =
     (if now - start < t \<and> inReset s
      then (let s' = poll p s in reset_delay_loop p t start (timeNowUs p s') s')
      else Some s)"

definition reset_delay_us :: "platform \<Rightarrow> u32 \<Rightarrow> hal \<Rightarrow> hal option" where
  "reset_delay_us p t s =
     (let now = timeNowUs p s; start = now in reset_delay_loop p t start now s)"

section \<open>Open and close\<close>

definition sh2_i2c_hal_open :: "platform \<Rightarrow> hal \<Rightarrow> (sh2_err \<times> hal) option" where
  "sh2_i2c_hal_open p s =
     (if isOpen s then Some (SH2_ERR, s)
      else do {
        let s1 = s\<lparr>i2cBusState := BUS_INIT, i2cAddr := push_bit 1 ADDR_SH2_0, isOpen := True\<rparr>;
        let s2 = hal_init_hw s1;
        let s3 = rstn False s2;
        let s4 = s3\<lparr>inReset := True\<rparr>;
        let s5 = enableInts s4;
        s6 \<leftarrow> delay_us p RESET_DELAY_US s5;
        let s7 = s6\<lparr>i2cBusState := BUS_IDLE, rxBufLen := 0, rxDataReady := False\<rparr>;
        let s8 = ps1 False (ps0_waken False s7);
        let s9 = rstn True (bootn True s8);
        s10 \<leftarrow> reset_delay_us p START_DELAY_US s9;
        Some (SH2_OK, s10)
      })"

definition sh2_i2c_hal_close :: "hal \<Rightarrow> hal" where
  "sh2_i2c_hal_close s =
     (let s1 = bootn True (rstn False s);
          s2 = s1\<lparr>i2cBusState := BUS_INIT\<rparr>;
          s3 = disableInts s2;
          s4 = s3\<lparr>i2c_up := False\<rparr>;
          s5 = s4\<lparr>tim2_run := False\<rparr>
      in s5\<lparr>isOpen := False\<rparr>)"

definition dfu_i2c_hal_open :: "platform \<Rightarrow> hal \<Rightarrow> (sh2_err \<times> hal) option" where
  "dfu_i2c_hal_open p s =
     (if isOpen s then Some (SH2_ERR, s)
      else do {
        let s1 = s\<lparr>i2cBusState := BUS_INIT, i2cAddr := push_bit 1 ADDR_DFU_0, isOpen := True\<rparr>;
        let s2 = hal_init_hw s1;
        let s3 = rstn False s2;
        let s4 = s3\<lparr>inReset := True\<rparr>;
        s5 \<leftarrow> delay_us p RESET_DELAY_US s4;
        let s6 = s5\<lparr>rxBufLen := 0, rxDataReady := False\<rparr>;
        let s7 = s6\<lparr>i2cBusState := BUS_IDLE\<rparr>;
        let s8 = enableI2cInts s7;
        let s9 = ps1 False (ps0_waken False s8);
        let s10 = rstn True (bootn False s9);
        s11 \<leftarrow> delay_us p DFU_BOOT_DELAY_US s10;
        Some (SH2_OK, s11)
      })"

definition dfu_i2c_hal_close :: "hal \<Rightarrow> hal" where
  "dfu_i2c_hal_close s =
     (let s1 = rstn False s;
          s2 = disableInts s1;
          s3 = s2\<lparr>i2c_up := False\<rparr>;
          s4 = s3\<lparr>tim2_run := False\<rparr>
      in s4\<lparr>isOpen := False\<rparr>)"

section \<open>Events\<close>

text \<open>
  After open the driver is driven by the three interrupts and by the client's calls.
  An interrupt is handled only while the NVIC has it enabled: an edge with the edge
  interrupt disabled runs no handler, and with the I2C interrupts disabled the
  interrupt-driven transfer does not move on, so its completion has not happened yet.
  The handlers share one priority and never nest.

  A read completion carries the bytes the peripheral sent: the bus engine has stored
  them in \<^verbatim>\<open>rxBuf\<close>, as many as the transfer asked for, before the callback runs. A
  transfer that asks for more bytes than \<^verbatim>\<open>rxBuf\<close> holds overruns the array; what the
  C program does from there on is undefined, and the run ends with \<open>None\<close>. A completion
  takes the oldest outstanding transfer of its direction off the bus.

  A client call carries whether an edge falls inside it, at the points named above.
\<close>

definition i2c_rx_done :: "u8 list \<Rightarrow> hal \<Rightarrow> hal option" where
  "i2c_rx_done bytes s =
     (case xfers s of
        Receive a n # rest \<Rightarrow>
          if unat n > length (rxBuf s) then None
          else Some (s\<lparr>rxBuf := memcpy (rxBuf s) bytes (min (unat n) (length bytes)),
                       xfers := rest\<rparr>)
      | _ \<Rightarrow> Some s)"

definition i2c_tx_done :: "hal \<Rightarrow> hal" where
  "i2c_tx_done s = (case xfers s of Transmit a n # rest \<Rightarrow> s\<lparr>xfers := rest\<rparr> | _ \<Rightarrow> s)"

datatype event =
    Intn
  | RxCplt "u8 list"
  | TxCplt
  | Sh2Read "u8 list" u32 u32 bool bool
  | Sh2Write "u8 list option" u32 bool
  | DfuRead "u8 list" u32 u32 bool
  | DfuWrite "u8 list option" u32 bool

fun fire :: "platform \<Rightarrow> event \<Rightarrow> hal \<Rightarrow> hal option" where
  "fire p Intn s = Some (take_intn p True s)"
| "fire p (RxCplt bytes) s =
     (if i2c_irq s then map_option (HAL_I2C_MasterRxCpltCallback p) (i2c_rx_done bytes s)
      else Some s)"
| "fire p TxCplt s =
     (if i2c_irq s then Some (HAL_I2C_MasterTxCpltCallback (i2c_tx_done s)) else Some s)"
| "fire p (Sh2Read pBuffer len t pend edge) s =
     Some (snd (snd (snd (sh2_i2c_hal_read_irq p pend edge pBuffer len t s))))"
| "fire p (Sh2Write pBuffer len edge) s =
     Some (snd (sh2_i2c_hal_write_irq p edge pBuffer len s))"
| "fire p (DfuRead pBuffer len t edge) s =
     Some (snd (snd (snd (dfu_i2c_hal_read_irq p edge pBuffer len t s))))"
| "fire p (DfuWrite pBuffer len edge) s =
     Some (snd (dfu_i2c_hal_write_irq p edge pBuffer len s))"

definition step :: "platform \<Rightarrow> event \<Rightarrow> hal \<Rightarrow> hal option" where
  "step p ev s = fire p ev (s\<lparr>tick := tick s + 1\<rparr>)"

fun run :: "platform \<Rightarrow> event list \<Rightarrow> hal \<Rightarrow> hal option" where
  "run p [] s = Some s"
| "run p (ev # evs) s = Option.bind (step p ev s) (run p evs)"

text \<open>
  The events in which an edge falls between a test of the bus state and the assignment
  that follows it, and the one call that enables the edge interrupt.
\<close>

fun in_window :: "event \<Rightarrow> bool" where
  "in_window (Sh2Read pBuffer len t pend edge) = edge"
| "in_window (Sh2Write pBuffer len edge) = edge"
| "in_window (DfuRead pBuffer len t edge) = edge"
| "in_window (DfuWrite pBuffer len edge) = edge"
| "in_window _ = False"

fun enables_edge :: "event \<Rightarrow> bool" where
  "enables_edge (Sh2Read pBuffer len t pend edge) = True"
| "enables_edge _ = False"

text \<open>The state of the file-scope variables and of the hardware at program start.\<close>

definition power_on :: "platform \<Rightarrow> hal" where
  "power_on p =
     \<lparr>isOpen = False, i2cBusState = BUS_INIT, rxTimestamp_uS = 0,
      rxBuf = replicate (SH2_HAL_MAX_TRANSFER_IN p) 0, rxBufLen = 0, payloadLen = 0,
      txBuf = replicate (SH2_HAL_MAX_TRANSFER_OUT p) 0, rxDataReady = False, discards = 0,
      i2cAddr = 0, inReset = False, exti_irq = False, i2c_irq = False, i2c_up = False,
      tim2_run = False, rstn_pin = False, bootn_pin = False, ps0_waken_pin = False,
      ps1_pin = False, clksel0_pin = False, xfers = [], tick = 0\<rparr>"

text \<open>
  The counter keeps running: polled from any moment on, it sooner or later reads at
  least the longest delay of the file past the reading of that moment.
\<close>

definition clock_runs :: "platform \<Rightarrow> bool" where
  "clock_runs p = (\<forall>n. \<exists>k. START_DELAY_US \<le> clock p (n + k) - clock p n)"

section \<open>Auxiliary notions\<close>

text \<open>
  The state right after a successful open that started in \<open>s0\<close>: the instance is open,
  the receive buffer is empty, the discard counter is the one of \<open>s0\<close>, and either no
  edge has been handled yet (the bus is idle, nothing was started, reset is still in
  progress) or the first edge has started the length read. Without an edge, or with the
  edge interrupt disabled, only the first case is possible.
\<close>

definition armed :: "platform \<Rightarrow> hal \<Rightarrow> hal \<Rightarrow> bool" where
  "armed p s0 u =
     (isOpen u \<and> rxBufLen u = 0 \<and> discards u = discards s0 \<and>
      ((i2cBusState u = BUS_IDLE \<and> xfers u = xfers s0 \<and> \<not> rxDataReady u \<and> inReset u) \<or>
       (i2cBusState u = BUS_READING_LEN \<and> xfers u = xfers s0 @ [Receive (i2cAddr u) READ_LEN]
          \<and> \<not> inReset u)) \<and>
      (inReset u \<or> (exti_irq u \<and> (\<exists>k. intn p k))))"

text \<open>
  The bus state and the outstanding transfers agree: a reading state has exactly one
  receive outstanding, a writing state exactly one transmit, every other state none.
\<close>

fun is_receive :: "xfer \<Rightarrow> bool" where
  "is_receive (Receive a n) = True"
| "is_receive (Transmit a n) = False"

definition reading :: "BusState_e \<Rightarrow> bool" where
  "reading st = (st = BUS_READING_LEN \<or> st = BUS_READING_TRANSFER \<or> st = BUS_READING_DFU)"

definition writing :: "BusState_e \<Rightarrow> bool" where
  "writing st = (st = BUS_WRITING \<or> st = BUS_WRITING_DFU)"

definition outstanding_ok :: "hal \<Rightarrow> bool" where
  "outstanding_ok s =
     (if reading (i2cBusState s) then length (xfers s) = 1 \<and> is_receive (hd (xfers s))
      else if writing (i2cBusState s) then length (xfers s) = 1 \<and> \<not> is_receive (hd (xfers s))
      else xfers s = [])"

text \<open>
  A bench set-up for concrete runs: buffers of 384 bytes in and 256 bytes out, a counter
  that has moved on by two seconds at every reading, and a peripheral that stays silent
  while the driver waits in open.
\<close>

definition bench :: platform where
  "bench = \<lparr>SH2_HAL_MAX_TRANSFER_IN = 384, SH2_HAL_MAX_TRANSFER_OUT = 256,
            clock = (\<lambda>k. of_nat k * 2000000), intn = (\<lambda>k. False)\<rparr>"

text \<open>
  A bench state of the open normal instance: the bus is idle and a frame of four bytes,
  captured at 100 microseconds, waits in the receive buffer.
\<close>

definition bench_frame :: hal where
  "bench_frame = (power_on bench)\<lparr>isOpen := True, i2cBusState := BUS_IDLE,
     rxTimestamp_uS := 100, rxBuf := [1, 2, 3, 4, 0, 0, 0, 0], rxBufLen := 4,
     i2cAddr := 0x94, exti_irq := True, i2c_irq := True\<rparr>"

text \<open>A session: open after power-on, then the events.\<close>

definition sh2_session :: "platform \<Rightarrow> event list \<Rightarrow> hal option" where
  "sh2_session p evs = Option.bind (sh2_i2c_hal_open p (power_on p)) (run p evs \<circ> snd)"

definition dfu_session :: "platform \<Rightarrow> event list \<Rightarrow> hal option" where
  "dfu_session p evs = Option.bind (dfu_i2c_hal_open p (power_on p)) (run p evs \<circ> snd)"

section \<open>Facts about words\<close>

lemma and_not_exp:
  fixes v :: u32
  assumes "unat v < 2 ^ Suc k" and "k < 31"
  shows "v AND NOT (2 ^ k) = take_bit k v"
proof -
  from assms(1) have "take_bit (Suc k) (unat v) = unat v"
    by (simp only: take_bit_nat_eq_self)
  then have tv: "take_bit (Suc k) v = v"
    by (metis unsigned_take_bit_eq word_unat_eq_iff)
  have hi: "n < Suc k" if "bit v n" for n
    using tv that by (metis bit_take_bit_iff)
  show ?thesis
  proof (rule bit_eqI)
    fix n
    show "bit (v AND NOT (2 ^ k)) n = bit (take_bit k v) n"
      using hi [of n] assms(2)
      by (cases "n = k")
         (auto simp: bit_and_iff bit_not_iff bit_take_bit_iff bit_exp_iff
               dest: bit_imp_possible_bit)
  qed
qed

lemma unat_ucast_u8_u32: "unat (ucast (b :: u8) :: u32) = unat b"
proof -
  have "unat b < 256" using unsigned_less [of b] by simp
  then show ?thesis by (simp add: unsigned_ucast_eq take_bit_nat_eq_self)
qed

lemma decode_len_nat:
  fixes b0 b1 :: u8
  shows "unat ((ucast (((ucast b0 :: u32) + push_bit 8 (ucast b1)) AND NOT 0x8000)) :: u16)
         = (unat b0 + 256 * unat b1) mod 32768"
proof -
  let ?v = "(ucast b0 :: u32) + push_bit 8 (ucast b1)"
  have b0: "unat b0 < 256" using unsigned_less [of b0] by simp
  have b1: "unat b1 < 256" using unsigned_less [of b1] by simp
  have u1: "unat (push_bit 8 (ucast b1) :: u32) = 256 * unat b1"
    using b1 by (simp add: push_bit_eq_mult unat_word_ariths unat_ucast_u8_u32)
  have v: "unat ?v = unat b0 + 256 * unat b1"
    using b0 b1 u1 by (simp add: unat_word_ariths unat_ucast_u8_u32)
  have lt: "unat ?v < 2 ^ Suc 15" using v b0 b1 by simp
  have a: "?v AND NOT 0x8000 = take_bit 15 ?v"
    using and_not_exp [OF lt] by simp
  have "unat (take_bit 15 ?v) = take_bit 15 (unat ?v)"
    by (rule unsigned_take_bit_eq)
  then have t: "unat (take_bit 15 ?v) = (unat b0 + 256 * unat b1) mod 32768"
    by (simp add: v take_bit_eq_mod)
  have "unat (ucast (take_bit 15 ?v) :: u16) = take_bit 16 (unat (take_bit 15 ?v))"
    by (simp only: unsigned_ucast_eq) simp
  also have "\<dots> = unat (take_bit 15 ?v)"
    by (simp only: t) (simp add: take_bit_nat_eq_self)
  finally show ?thesis by (simp only: a t)
qed

section \<open>Facts about the busy-wait loops\<close>

lemma delay_loop_done: "\<not> now - start < t \<Longrightarrow> delay_loop p t start now s = Some s"
  by (subst delay_loop.simps) simp

lemma delay_loop_step:
  "now - start < t \<Longrightarrow>
   delay_loop p t start now s = delay_loop p t start (timeNowUs p (poll p s)) (poll p s)"
  by (subst delay_loop.simps) (simp add: Let_def)

lemma reset_delay_loop_done:
  "\<not> (now - start < t \<and> inReset s) \<Longrightarrow> reset_delay_loop p t start now s = Some s"
  by (subst reset_delay_loop.simps) auto

lemma reset_delay_loop_step:
  "now - start < t \<Longrightarrow> inReset s \<Longrightarrow>
   reset_delay_loop p t start now s =
     reset_delay_loop p t start (timeNowUs p (poll p s)) (poll p s)"
  by (subst reset_delay_loop.simps) (simp add: Let_def)

lemma tick_EXTI [simp]: "tick (HAL_GPIO_EXTI_Callback p s) = tick s"
  by (simp add: HAL_GPIO_EXTI_Callback_def HAL_I2C_Master_Receive_IT_def Let_def)

lemma tick_poll [simp]: "tick (poll p s) = Suc (tick s)"
  by (simp add: poll_def Let_def)

text \<open>Termination: the loop returns once the counter has moved far enough.\<close>

lemma delay_loop_total:
  assumes "t \<le> clock p (tick s + k) - start" and "I s" and "\<And>u. I u \<Longrightarrow> I (poll p u)"
  shows "\<exists>s'. delay_loop p t start (clock p (tick s)) s = Some s' \<and> I s'
           \<and> t \<le> clock p (tick s') - start"
  using assms(1,2)
proof (induction k arbitrary: s)
  case 0
  then show ?case by (simp add: delay_loop_done not_less)
next
  case (Suc k)
  show ?case
  proof (cases "clock p (tick s) - start < t")
    case True
    have "t \<le> clock p (tick (poll p s) + k) - start" using Suc.prems(1) by simp
    from Suc.IH [OF this assms(3) [OF Suc.prems(2)]] True
    show ?thesis by (simp add: delay_loop_step timeNowUs_def)
  next
    case False
    with Suc.prems show ?thesis by (simp add: delay_loop_done not_less)
  qed
qed

lemma reset_delay_loop_total:
  assumes "t \<le> clock p (tick s + k) - start" and "I s"
    and "\<And>u. I u \<Longrightarrow> inReset u \<Longrightarrow> I (poll p u)"
  shows "\<exists>s'. reset_delay_loop p t start (clock p (tick s)) s = Some s' \<and> I s'
           \<and> (inReset s' \<longrightarrow> t \<le> clock p (tick s') - start)"
  using assms(1,2)
proof (induction k arbitrary: s)
  case 0
  then show ?case by (simp add: reset_delay_loop_done not_less)
next
  case (Suc k)
  show ?case
  proof (cases "clock p (tick s) - start < t \<and> inReset s")
    case True
    have "t \<le> clock p (tick (poll p s) + k) - start" using Suc.prems(1) by simp
    from Suc.IH [OF this assms(3) [OF Suc.prems(2)]] True
    show ?thesis by (simp add: reset_delay_loop_step timeNowUs_def)
  next
    case False
    with Suc.prems show ?thesis by (auto simp add: reset_delay_loop_done not_less)
  qed
qed

lemma clock_runs_le:
  assumes "clock_runs p" and "t \<le> START_DELAY_US"
  shows "\<exists>k. t \<le> clock p (n + k) - clock p n"
  using assms unfolding clock_runs_def by (meson order_trans)

lemma delay_us_total:
  assumes "clock_runs p" and "t \<le> START_DELAY_US" and "I s" and "\<And>u. I u \<Longrightarrow> I (poll p u)"
  shows "\<exists>s'. delay_us p t s = Some s' \<and> I s'"
proof -
  from clock_runs_le [OF assms(1,2)]
  obtain k where "t \<le> clock p (tick s + k) - clock p (tick s)" by blast
  from delay_loop_total [of t p s k "clock p (tick s)" I, OF this assms(3,4)]
  show ?thesis by (auto simp: delay_us_def timeNowUs_def Let_def)
qed

lemma reset_delay_us_total:
  assumes "clock_runs p" and "t \<le> START_DELAY_US" and "I s"
    and "\<And>u. I u \<Longrightarrow> inReset u \<Longrightarrow> I (poll p u)"
  shows "\<exists>s'. reset_delay_us p t s = Some s' \<and> I s'
           \<and> (inReset s' \<longrightarrow> t \<le> clock p (tick s') - clock p (tick s))"
proof -
  from clock_runs_le [OF assms(1,2)]
  obtain k where "t \<le> clock p (tick s + k) - clock p (tick s)" by blast
  from reset_delay_loop_total [of t p s k "clock p (tick s)" I, OF this assms(3,4)]
  show ?thesis by (auto simp: reset_delay_us_def timeNowUs_def Let_def)
qed

text \<open>Partial correctness: what every poll preserves holds when the loop returns.\<close>

lemma delay_loop_inv_aux:
  assumes "delay_loop p t start now s = Some s'"
  shows "(\<forall>u. I u \<longrightarrow> I (poll p u)) \<longrightarrow> I s \<longrightarrow> I s'"
  by (rule delay_loop.raw_induct
        [where P = "\<lambda>p t start now s s'. (\<forall>u. I u \<longrightarrow> I (poll p u)) \<longrightarrow> I s \<longrightarrow> I s'",
         OF _ assms])
     (auto simp: Let_def split: if_splits)

lemma reset_delay_loop_inv_aux:
  assumes "reset_delay_loop p t start now s = Some s'"
  shows "(\<forall>u. I u \<longrightarrow> inReset u \<longrightarrow> I (poll p u)) \<longrightarrow> I s \<longrightarrow> I s'"
  by (rule reset_delay_loop.raw_induct
        [where P = "\<lambda>p t start now s s'.
                     (\<forall>u. I u \<longrightarrow> inReset u \<longrightarrow> I (poll p u)) \<longrightarrow> I s \<longrightarrow> I s'",
         OF _ assms])
     (auto simp: Let_def split: if_splits)

lemma delay_us_inv:
  assumes "delay_us p t s = Some s'" and "I s" and "\<And>u. I u \<Longrightarrow> I (poll p u)"
  shows "I s'"
  using assms delay_loop_inv_aux [of p t _ _ s s' I] by (auto simp: delay_us_def Let_def)

lemma reset_delay_us_inv:
  assumes "reset_delay_us p t s = Some s'" and "I s"
    and "\<And>u. I u \<Longrightarrow> inReset u \<Longrightarrow> I (poll p u)"
  shows "I s'"
  using assms reset_delay_loop_inv_aux [of p t _ _ s s' I]
  by (auto simp: reset_delay_us_def Let_def)

lemmas hw_defs = hal_init_hw_def hal_init_i2c_def hal_init_gpio_def hal_init_timer_def
  rstn_def bootn_def ps0_waken_def ps1_def enableInts_def disableInts_def
  enableI2cInts_def disableI2cInts_def RESET_DELAY_US_def START_DELAY_US_def
  DFU_BOOT_DELAY_US_def ADDR_SH2_0_def ADDR_DFU_0_def READ_LEN_def
  HAL_I2C_Master_Receive_IT_def HAL_I2C_Master_Transmit_IT_def

lemmas loop_eval = delay_us_def reset_delay_us_def timeNowUs_def delay_loop_done
  delay_loop_step reset_delay_loop_done reset_delay_loop_step poll_def

section \<open>Facts about open and about the outstanding transfers\<close>

lemma poll_INIT: "i2cBusState u = BUS_INIT \<Longrightarrow> poll p u = u\<lparr>tick := Suc (tick u)\<rparr>"
  by (simp add: poll_def HAL_GPIO_EXTI_Callback_def Let_def)

lemma exti_irq_poll [simp]: "exti_irq (poll p u) = exti_irq u"
  by (simp add: poll_def HAL_GPIO_EXTI_Callback_def Let_def hw_defs)

lemma armed_poll: "armed p s0 u \<Longrightarrow> armed p s0 (poll p u)"
  unfolding armed_def poll_def HAL_GPIO_EXTI_Callback_def Let_def hw_defs timeNowUs_def
  by auto

lemma sh2_open_armed:
  assumes "\<not> isOpen s0" and "sh2_i2c_hal_open p s0 = Some (r, s')"
  shows "r = SH2_OK \<and> armed p s0 s' \<and> exti_irq s'"
proof -
  define s5 where "s5 = enableInts ((rstn False (hal_init_hw
     (s0\<lparr>i2cBusState := BUS_INIT, i2cAddr := push_bit 1 ADDR_SH2_0, isOpen := True\<rparr>)))
       \<lparr>inReset := True\<rparr>)"
  define mid where "mid = (\<lambda>s6. rstn True (bootn True (ps1 False (ps0_waken False
     (s6\<lparr>i2cBusState := BUS_IDLE, rxBufLen := 0, rxDataReady := False\<rparr>)))))"
  from assms obtain s6 where d1: "delay_us p RESET_DELAY_US s5 = Some s6"
    and d2: "reset_delay_us p START_DELAY_US (mid s6) = Some s'" and r: "r = SH2_OK"
    by (auto simp: sh2_i2c_hal_open_def Let_def s5_def mid_def split: Option.bind_splits)
  have init: "i2cBusState s5 = BUS_INIT" by (simp add: s5_def hw_defs)
  have "\<exists>n. s6 = s5\<lparr>tick := n\<rparr>"
    by (rule delay_us_inv [OF d1, where I = "\<lambda>u. \<exists>n. u = s5\<lparr>tick := n\<rparr>"])
       (use init in \<open>auto simp: poll_INIT intro: exI [of _ "tick s5"]\<close>)
  then have "armed p s0 (mid s6) \<and> exti_irq (mid s6)"
    by (auto simp add: mid_def armed_def s5_def hw_defs)
  then have "armed p s0 s' \<and> exti_irq s'"
    by (rule reset_delay_us_inv [OF d2]) (simp add: armed_poll)
  with r show ?thesis by simp
qed


lemma dfu_open_armed:
  assumes "\<not> isOpen s0" and "dfu_i2c_hal_open p s0 = Some (r, s')"
  shows "r = SH2_OK \<and> armed p s0 s' \<and> exti_irq s' = exti_irq s0"
proof -
  define s4 where "s4 = (rstn False (hal_init_hw
     (s0\<lparr>i2cBusState := BUS_INIT, i2cAddr := push_bit 1 ADDR_DFU_0, isOpen := True\<rparr>)))
       \<lparr>inReset := True\<rparr>"
  define mid where "mid = (\<lambda>s5. rstn True (bootn False (ps1 False (ps0_waken False
     (enableI2cInts (s5\<lparr>rxBufLen := 0, rxDataReady := False, i2cBusState := BUS_IDLE\<rparr>))))))"
  from assms obtain s5 where d1: "delay_us p RESET_DELAY_US s4 = Some s5"
    and d2: "delay_us p DFU_BOOT_DELAY_US (mid s5) = Some s'" and r: "r = SH2_OK"
    by (auto simp: dfu_i2c_hal_open_def Let_def s4_def mid_def split: Option.bind_splits)
  have init: "i2cBusState s4 = BUS_INIT" by (simp add: s4_def hw_defs)
  have "\<exists>n. s5 = s4\<lparr>tick := n\<rparr>"
    by (rule delay_us_inv [OF d1, where I = "\<lambda>u. \<exists>n. u = s4\<lparr>tick := n\<rparr>"])
       (use init in \<open>auto simp: poll_INIT intro: exI [of _ "tick s4"]\<close>)
  then have "armed p s0 (mid s5) \<and> exti_irq (mid s5) = exti_irq s0"
    by (auto simp add: mid_def armed_def s4_def hw_defs)
  then have "armed p s0 s' \<and> exti_irq s' = exti_irq s0"
    by (rule delay_us_inv [OF d2]) (simp add: armed_poll)
  with r show ?thesis by simp
qed

lemma sh2_open_returns:
  assumes "\<not> isOpen s0" and "clock_runs p"
  shows "\<exists>s' n. sh2_i2c_hal_open p s0 = Some (SH2_OK, s') \<and> n \<le> tick s' \<and>
           (inReset s' \<longrightarrow> START_DELAY_US \<le> clock p (tick s') - clock p n)"
proof -
  define s5 where "s5 = enableInts ((rstn False (hal_init_hw
     (s0\<lparr>i2cBusState := BUS_INIT, i2cAddr := push_bit 1 ADDR_SH2_0, isOpen := True\<rparr>)))
       \<lparr>inReset := True\<rparr>)"
  define mid where "mid = (\<lambda>s6. rstn True (bootn True (ps1 False (ps0_waken False
     (s6\<lparr>i2cBusState := BUS_IDLE, rxBufLen := 0, rxDataReady := False\<rparr>)))))"
  have le: "RESET_DELAY_US \<le> START_DELAY_US"
    by (simp add: RESET_DELAY_US_def START_DELAY_US_def)
  from delay_us_total [OF assms(2) le, of "\<lambda>u. True" s5]
  obtain s6 where d1: "delay_us p RESET_DELAY_US s5 = Some s6" by auto
  from reset_delay_us_total [OF assms(2) order_refl, of "\<lambda>u. tick (mid s6) \<le> tick u" "mid s6"]
  obtain s' where d2: "reset_delay_us p START_DELAY_US (mid s6) = Some s'"
    and tk: "tick (mid s6) \<le> tick s'"
    and el: "inReset s' \<longrightarrow> START_DELAY_US \<le> clock p (tick s') - clock p (tick (mid s6))"
    by auto
  have "sh2_i2c_hal_open p s0 = Some (SH2_OK, s')"
    using assms(1) d1 d2 by (simp add: sh2_i2c_hal_open_def Let_def s5_def mid_def)
  with tk el show ?thesis by blast
qed

lemma dfu_open_returns:
  assumes "\<not> isOpen s0" and "clock_runs p"
  shows "\<exists>s'. dfu_i2c_hal_open p s0 = Some (SH2_OK, s')"
proof -
  define s4 where "s4 = (rstn False (hal_init_hw
     (s0\<lparr>i2cBusState := BUS_INIT, i2cAddr := push_bit 1 ADDR_DFU_0, isOpen := True\<rparr>)))
       \<lparr>inReset := True\<rparr>"
  define mid where "mid = (\<lambda>s5. rstn True (bootn False (ps1 False (ps0_waken False
     (enableI2cInts (s5\<lparr>rxBufLen := 0, rxDataReady := False, i2cBusState := BUS_IDLE\<rparr>))))))"
  have le1: "RESET_DELAY_US \<le> START_DELAY_US"
    by (simp add: RESET_DELAY_US_def START_DELAY_US_def)
  have le2: "DFU_BOOT_DELAY_US \<le> START_DELAY_US"
    by (simp add: DFU_BOOT_DELAY_US_def START_DELAY_US_def)
  from delay_us_total [OF assms(2) le1, of "\<lambda>u. True" s4]
  obtain s5 where d1: "delay_us p RESET_DELAY_US s4 = Some s5" by auto
  from delay_us_total [OF assms(2) le2, of "\<lambda>u. True" "mid s5"]
  obtain s' where d2: "delay_us p DFU_BOOT_DELAY_US (mid s5) = Some s'" by auto
  have "dfu_i2c_hal_open p s0 = Some (SH2_OK, s')"
    using assms(1) d1 d2 by (simp add: dfu_i2c_hal_open_def Let_def s4_def mid_def)
  then show ?thesis by blast
qed

lemma armed_outstanding_ok: "armed p s0 s \<Longrightarrow> xfers s0 = [] \<Longrightarrow> outstanding_ok s"
  by (auto simp: armed_def outstanding_ok_def reading_def writing_def)

lemma outstanding_ok_bound:
  "outstanding_ok s \<Longrightarrow> length (xfers s) \<le> 1 \<and> (i2cBusState s = BUS_IDLE \<longrightarrow> xfers s = [])"
  by (auto simp: outstanding_ok_def reading_def writing_def split: if_splits)

section \<open>The client calls and the handlers, one at a time\<close>

text \<open>
  Claim C2. When a read completion arrives in the state \<open>BUS_READING_LEN\<close> with the two
  received bytes \<open>b0\<close> and \<open>b1\<close> at the start of the receive buffer, the stored payload
  length is the little-endian value \<open>b0 + 256 * b1\<close> with bit 15 cleared, or the capacity
  of the receive buffer if that is smaller, and the state becomes \<open>BUS_GOT_LEN\<close>. The
  bytes \<open>05 80\<close> give the same payload length as \<open>05 00\<close>.
\<close>

theorem length_read_complete:
  assumes "i2cBusState s = BUS_READING_LEN" and "rxBuf s = b0 # b1 # rest"
  shows "unat (payloadLen (HAL_I2C_MasterRxCpltCallback p s))
           = min ((unat b0 + 256 * unat b1) mod 32768) (SH2_HAL_MAX_TRANSFER_IN p)
         \<and> i2cBusState (HAL_I2C_MasterRxCpltCallback p s) = BUS_GOT_LEN
         \<and> (b0 = 0x05 \<and> b1 = 0x80 \<longrightarrow>
              payloadLen (HAL_I2C_MasterRxCpltCallback p s)
                = payloadLen (HAL_I2C_MasterRxCpltCallback p (s\<lparr>rxBuf := 0x05 # 0x00 # rest\<rparr>)))"
proof -
  have gen: "unat (payloadLen (HAL_I2C_MasterRxCpltCallback p u))
           = min ((unat c0 + 256 * unat c1) mod 32768) (SH2_HAL_MAX_TRANSFER_IN p)
         \<and> i2cBusState (HAL_I2C_MasterRxCpltCallback p u) = BUS_GOT_LEN"
    if st: "i2cBusState u = BUS_READING_LEN" and buf: "rxBuf u = c0 # c1 # r" for u c0 c1 r
  proof -
    let ?len = "(ucast (((ucast c0 :: u32) + push_bit 8 (ucast c1)) AND NOT 0x8000)) :: u16"
    have d: "unat ?len = (unat c0 + 256 * unat c1) mod 32768" by (rule decode_len_nat)
    show ?thesis
    proof (cases "unat ?len > SH2_HAL_MAX_TRANSFER_IN p")
      case True
      then have "SH2_HAL_MAX_TRANSFER_IN p < 65536" using d by simp
      then have "unat (of_nat (SH2_HAL_MAX_TRANSFER_IN p) :: u16) = SH2_HAL_MAX_TRANSFER_IN p"
        by (simp add: unat_of_nat)
      with True d show ?thesis
        using st buf by (simp add: HAL_I2C_MasterRxCpltCallback_def Let_def)
    next
      case False
      with d show ?thesis
        using st buf by (simp add: HAL_I2C_MasterRxCpltCallback_def Let_def)
    qed
  qed
  have a: "unat (payloadLen (HAL_I2C_MasterRxCpltCallback p s))
           = min ((unat b0 + 256 * unat b1) mod 32768) (SH2_HAL_MAX_TRANSFER_IN p)
         \<and> i2cBusState (HAL_I2C_MasterRxCpltCallback p s) = BUS_GOT_LEN"
    by (rule gen [OF assms])
  have b: "payloadLen (HAL_I2C_MasterRxCpltCallback p s)
                = payloadLen (HAL_I2C_MasterRxCpltCallback p (s\<lparr>rxBuf := 0x05 # 0x00 # rest\<rparr>))"
    if "b0 = 0x05 \<and> b1 = 0x80"
  proof -
    have "unat (payloadLen (HAL_I2C_MasterRxCpltCallback p (s\<lparr>rxBuf := 0x05 # 0x00 # rest\<rparr>)))
          = min ((unat (0x05::u8) + 256 * unat (0x00::u8)) mod 32768) (SH2_HAL_MAX_TRANSFER_IN p)"
      using gen [of "s\<lparr>rxBuf := 0x05 # 0x00 # rest\<rparr>" "0x05" "0x00" rest] assms(1) by simp
    with a that show ?thesis by (simp add: word_unat_eq_iff)
  qed
  from a b show ?thesis by blast
qed

theorem length_read_complete_witness:
  "unat (payloadLen (HAL_I2C_MasterRxCpltCallback bench
      ((power_on bench)\<lparr>i2cBusState := BUS_READING_LEN, rxBuf := [0x05, 0x80, 0, 0]\<rparr>))) = 5
   \<and> unat (payloadLen (HAL_I2C_MasterRxCpltCallback bench
      ((power_on bench)\<lparr>i2cBusState := BUS_READING_LEN, rxBuf := [0xFF, 0x7F, 0, 0]\<rparr>))) = 384
   \<and> payloadLen (HAL_I2C_MasterRxCpltCallback bench
      ((power_on bench)\<lparr>i2cBusState := BUS_READING_LEN, rxBuf := [0x05, 0x80, 0, 0]\<rparr>))
     = payloadLen (HAL_I2C_MasterRxCpltCallback bench
      ((power_on bench)\<lparr>i2cBusState := BUS_READING_LEN, rxBuf := [0x05, 0x00, 0, 0]\<rparr>))"
  using length_read_complete [of "(power_on bench)\<lparr>i2cBusState := BUS_READING_LEN, rxBuf := [0x05, 0x80, 0, 0]\<rparr>" "0x05" "0x80" "[0, 0]" bench]
    length_read_complete [of "(power_on bench)\<lparr>i2cBusState := BUS_READING_LEN, rxBuf := [0xFF, 0x7F, 0, 0]\<rparr>" "0xFF" "0x7F" "[0, 0]" bench]
  by (simp add: power_on_def bench_def HAL_I2C_MasterRxCpltCallback_def)

text \<open>
  Claim C10. A data-ready edge handled in the state \<open>BUS_INIT\<close> changes nothing: the
  handler returns the state it was given, so the timestamp, the reset-in-progress flag,
  the pending-data flag, the discard counter, the receive buffer, the bus state and the
  outstanding transfers are all as before.
\<close>

theorem edge_ignored_when_uninitialized:
  "i2cBusState s = BUS_INIT \<Longrightarrow> HAL_GPIO_EXTI_Callback p s = s"
  by (simp add: HAL_GPIO_EXTI_Callback_def)

theorem edge_ignored_when_uninitialized_witness:
  "i2cBusState (power_on bench) = BUS_INIT
   \<and> HAL_GPIO_EXTI_Callback bench (power_on bench) = power_on bench"
  using edge_ignored_when_uninitialized [of "power_on bench" bench]
  by (simp add: power_on_def)

text \<open>
  Claim C3. A read of the normal instance with a frame of \<open>N > 0\<close> bytes buffered and a
  capacity below \<open>N\<close> returns the bad-parameter error, leaves the client's buffer and
  timestamp alone and empties the receive buffer; with a capacity of at least \<open>N\<close> it
  returns \<open>N\<close>, replaces exactly the first \<open>N\<close> bytes of the client's buffer by the
  frame, writes the capture timestamp and empties the receive buffer; with nothing
  buffered it returns 0. A returned byte count never exceeds the capacity.
\<close>

theorem read_delivers_whole_frame_or_nothing:
  "(0 < rxBufLen s \<and> len < rxBufLen s \<longrightarrow>
      (\<exists>s'. sh2_i2c_hal_read pBuffer len t s = (Inl SH2_ERR_BAD_PARAM, pBuffer, t, s')
            \<and> rxBufLen s' = 0))
   \<and> (0 < rxBufLen s \<and> rxBufLen s \<le> len \<longrightarrow>
      (\<exists>s'. sh2_i2c_hal_read pBuffer len t s =
              (Inr (rxBufLen s),
               take (unat (rxBufLen s)) (rxBuf s) @ drop (unat (rxBufLen s)) pBuffer,
               rxTimestamp_uS s, s')
            \<and> rxBufLen s' = 0))
   \<and> (rxBufLen s = 0 \<longrightarrow>
      (\<exists>s'. sh2_i2c_hal_read pBuffer len t s = (Inr 0, pBuffer, t, s') \<and> rxBufLen s' = 0))
   \<and> (\<forall>n. fst (sh2_i2c_hal_read pBuffer len t s) = Inr n \<longrightarrow> n \<le> len)"
  by (auto simp: sh2_i2c_hal_read_def Let_def hw_defs memcpy_def word_gt_0 not_less)

text \<open>
  Claim C4. A write of either instance with a null buffer, a zero length or a length
  above the capacity of the transmit buffer returns the bad-parameter error and changes
  nothing. Otherwise, if the bus state is \<open>BUS_IDLE\<close> the call returns the full length
  and the first \<open>len\<close> bytes of the transmit buffer are the payload; in any other state
  it returns 0, and the transmit buffer and the outstanding transfers are unchanged.
\<close>

theorem write_only_when_idle:
  "(pBuffer = None \<or> len = 0 \<or> unat len > SH2_HAL_MAX_TRANSFER_OUT p \<longrightarrow>
      sh2_i2c_hal_write p pBuffer len s = (Inl SH2_ERR_BAD_PARAM, s)
      \<and> dfu_i2c_hal_write p pBuffer len s = (Inl SH2_ERR_BAD_PARAM, s))
   \<and> (pBuffer = Some buf \<and> len \<noteq> 0 \<and> unat len \<le> SH2_HAL_MAX_TRANSFER_OUT p \<longrightarrow>
       (i2cBusState s = BUS_IDLE \<longrightarrow>
          fst (sh2_i2c_hal_write p pBuffer len s) = Inr len
          \<and> txBuf (snd (sh2_i2c_hal_write p pBuffer len s))
              = take (unat len) buf @ drop (unat len) (txBuf s)
          \<and> fst (dfu_i2c_hal_write p pBuffer len s) = Inr len
          \<and> txBuf (snd (dfu_i2c_hal_write p pBuffer len s))
              = take (unat len) buf @ drop (unat len) (txBuf s))
       \<and> (i2cBusState s \<noteq> BUS_IDLE \<longrightarrow>
          fst (sh2_i2c_hal_write p pBuffer len s) = Inr 0
          \<and> txBuf (snd (sh2_i2c_hal_write p pBuffer len s)) = txBuf s
          \<and> xfers (snd (sh2_i2c_hal_write p pBuffer len s)) = xfers s
          \<and> fst (dfu_i2c_hal_write p pBuffer len s) = Inr 0
          \<and> txBuf (snd (dfu_i2c_hal_write p pBuffer len s)) = txBuf s
          \<and> xfers (snd (dfu_i2c_hal_write p pBuffer len s)) = xfers s))"
  by (auto simp: sh2_i2c_hal_write_def dfu_i2c_hal_write_def Let_def hw_defs memcpy_def
           split: option.splits)

text \<open>
  Claim C8. A read of the normal instance, whatever it did with a buffered frame: if the
  pending-data flag is set and the bus is idle it starts the two-byte length read; if
  the flag is set and the state is \<open>BUS_GOT_LEN\<close> it starts the payload read of the
  decoded length; in both cases it clears the flag. In every other state the flag stays
  set, the state stays and no transfer is started.
\<close>

theorem read_starts_deferred_transfer:
  "(rxDataReady s \<and> i2cBusState s = BUS_IDLE \<longrightarrow>
      i2cBusState (snd (snd (snd (sh2_i2c_hal_read pBuffer len t s)))) = BUS_READING_LEN
      \<and> xfers (snd (snd (snd (sh2_i2c_hal_read pBuffer len t s))))
          = xfers s @ [Receive (i2cAddr s) 2]
      \<and> \<not> rxDataReady (snd (snd (snd (sh2_i2c_hal_read pBuffer len t s)))))
   \<and> (rxDataReady s \<and> i2cBusState s = BUS_GOT_LEN \<longrightarrow>
      i2cBusState (snd (snd (snd (sh2_i2c_hal_read pBuffer len t s)))) = BUS_READING_TRANSFER
      \<and> xfers (snd (snd (snd (sh2_i2c_hal_read pBuffer len t s))))
          = xfers s @ [Receive (i2cAddr s) (payloadLen s)]
      \<and> \<not> rxDataReady (snd (snd (snd (sh2_i2c_hal_read pBuffer len t s)))))
   \<and> (rxDataReady s \<and> i2cBusState s \<noteq> BUS_IDLE \<and> i2cBusState s \<noteq> BUS_GOT_LEN \<longrightarrow>
      i2cBusState (snd (snd (snd (sh2_i2c_hal_read pBuffer len t s)))) = i2cBusState s
      \<and> xfers (snd (snd (snd (sh2_i2c_hal_read pBuffer len t s)))) = xfers s
      \<and> rxDataReady (snd (snd (snd (sh2_i2c_hal_read pBuffer len t s)))))"
  by (auto simp: sh2_i2c_hal_read_def Let_def hw_defs)


theorem read_delivers_whole_frame_or_nothing_witness:
  "fst (sh2_i2c_hal_read [9, 9] 2 0 bench_frame) = Inl SH2_ERR_BAD_PARAM
   \<and> rxBufLen (snd (snd (snd (sh2_i2c_hal_read [9, 9] 2 0 bench_frame)))) = 0
   \<and> fst (sh2_i2c_hal_read [9, 9, 9, 9, 9, 9] 6 0 bench_frame) = Inr 4
   \<and> fst (snd (sh2_i2c_hal_read [9, 9, 9, 9, 9, 9] 6 0 bench_frame)) = [1, 2, 3, 4, 9, 9]
   \<and> fst (snd (snd (sh2_i2c_hal_read [9, 9, 9, 9, 9, 9] 6 0 bench_frame))) = 100
   \<and> rxBufLen (snd (snd (snd (sh2_i2c_hal_read [9, 9, 9, 9, 9, 9] 6 0 bench_frame)))) = 0
   \<and> fst (sh2_i2c_hal_read [9, 9] 2 0 (bench_frame\<lparr>rxBufLen := 0\<rparr>)) = Inr 0"
  using read_delivers_whole_frame_or_nothing [of bench_frame 2 "[9, 9]" 0]
    read_delivers_whole_frame_or_nothing [of bench_frame 6 "[9, 9, 9, 9, 9, 9]" 0]
    read_delivers_whole_frame_or_nothing [of "bench_frame\<lparr>rxBufLen := 0\<rparr>" 2 "[9, 9]" 0]
  by (auto simp: bench_frame_def power_on_def)

theorem write_only_when_idle_witness:
  "sh2_i2c_hal_write bench None 3 bench_frame = (Inl SH2_ERR_BAD_PARAM, bench_frame)
   \<and> sh2_i2c_hal_write bench (Some [7, 8, 9]) 0 bench_frame = (Inl SH2_ERR_BAD_PARAM, bench_frame)
   \<and> dfu_i2c_hal_write bench (Some [7, 8, 9]) 257 bench_frame = (Inl SH2_ERR_BAD_PARAM, bench_frame)
   \<and> fst (sh2_i2c_hal_write bench (Some [7, 8, 9]) 3 bench_frame) = Inr 3
   \<and> take 4 (txBuf (snd (sh2_i2c_hal_write bench (Some [7, 8, 9]) 3 bench_frame))) = [7, 8, 9, 0]
   \<and> fst (dfu_i2c_hal_write bench (Some [7, 8, 9]) 3
             (bench_frame\<lparr>i2cBusState := BUS_GOT_LEN\<rparr>)) = Inr 0
   \<and> txBuf (snd (dfu_i2c_hal_write bench (Some [7, 8, 9]) 3
             (bench_frame\<lparr>i2cBusState := BUS_GOT_LEN\<rparr>))) = txBuf bench_frame"
  using write_only_when_idle [where pBuffer = None and len = 3 and p = bench and s = bench_frame]
    write_only_when_idle [where pBuffer = "Some [7, 8, 9]" and len = 0 and p = bench
       and s = bench_frame]
    write_only_when_idle [where pBuffer = "Some [7, 8, 9]" and len = 257 and p = bench
       and s = bench_frame]
    write_only_when_idle [where pBuffer = "Some [7, 8, 9]" and len = 3 and p = bench
       and buf = "[7, 8, 9]" and s = bench_frame]
    write_only_when_idle [where pBuffer = "Some [7, 8, 9]" and len = 3 and p = bench
       and buf = "[7, 8, 9]" and s = "bench_frame\<lparr>i2cBusState := BUS_GOT_LEN\<rparr>"]
  by (simp add: bench_frame_def power_on_def bench_def)

theorem read_starts_deferred_transfer_witness:
  "xfers (snd (snd (snd (sh2_i2c_hal_read [] 0 0 (bench_frame\<lparr>rxDataReady := True\<rparr>)))))
     = [Receive 0x94 2]
   \<and> xfers (snd (snd (snd (sh2_i2c_hal_read [] 0 0
        (bench_frame\<lparr>rxDataReady := True, i2cBusState := BUS_GOT_LEN, payloadLen := 4\<rparr>)))))
     = [Receive 0x94 4]
   \<and> rxDataReady (snd (snd (snd (sh2_i2c_hal_read [] 0 0
        (bench_frame\<lparr>rxDataReady := True, i2cBusState := BUS_WRITING,
            xfers := [Transmit 0x94 3]\<rparr>)))))
   \<and> xfers (snd (snd (snd (sh2_i2c_hal_read [] 0 0
        (bench_frame\<lparr>rxDataReady := True, i2cBusState := BUS_WRITING,
            xfers := [Transmit 0x94 3]\<rparr>)))))
     = [Transmit 0x94 3]"
  using read_starts_deferred_transfer [of "bench_frame\<lparr>rxDataReady := True\<rparr>" "[]" 0 0]
    read_starts_deferred_transfer [of
      "bench_frame\<lparr>rxDataReady := True, i2cBusState := BUS_GOT_LEN, payloadLen := 4\<rparr>" "[]" 0 0]
    read_starts_deferred_transfer [of
      "bench_frame\<lparr>rxDataReady := True, i2cBusState := BUS_WRITING,
          xfers := [Transmit 0x94 3]\<rparr>" "[]" 0 0]
  by (simp add: bench_frame_def power_on_def)

section \<open>Open, close and sessions\<close>

lemma clock_runs_bench: "clock_runs bench"
  unfolding clock_runs_def
proof
  fix n
  have "clock bench (n + 1) - clock bench n = 2000000"
    by (simp add: bench_def algebra_simps)
  then show "\<exists>k. START_DELAY_US \<le> clock bench (n + k) - clock bench n"
    by (intro exI [of _ 1]) (simp add: START_DELAY_US_def)
qed

lemma isOpen_armed: "armed p s0 s \<Longrightarrow> isOpen s"
  by (simp add: armed_def)

text \<open>
  Claim C5. While an instance is open, open of either instance returns \<open>SH2_ERR\<close> and
  leaves the state exactly as it was. The two instances share the one flag \<open>isOpen\<close>:
  once either open has returned from a closed state, the flag is set and a further open
  of either instance fails in the same way.
\<close>

theorem open_twice_fails:
  "(isOpen s \<longrightarrow>
      sh2_i2c_hal_open p s = Some (SH2_ERR, s) \<and> dfu_i2c_hal_open p s = Some (SH2_ERR, s))
   \<and> (\<not> isOpen s \<and> (sh2_i2c_hal_open p s = Some (r, s') \<or> dfu_i2c_hal_open p s = Some (r, s'))
        \<longrightarrow> isOpen s' \<and> sh2_i2c_hal_open q s' = Some (SH2_ERR, s')
            \<and> dfu_i2c_hal_open q s' = Some (SH2_ERR, s'))"
proof -
  have a: "isOpen u \<Longrightarrow>
      sh2_i2c_hal_open v u = Some (SH2_ERR, u) \<and> dfu_i2c_hal_open v u = Some (SH2_ERR, u)" for u v
    by (simp add: sh2_i2c_hal_open_def dfu_i2c_hal_open_def)
  have b: "isOpen s'"
    if "\<not> isOpen s" and "sh2_i2c_hal_open p s = Some (r, s') \<or> dfu_i2c_hal_open p s = Some (r, s')"
    using that sh2_open_armed [of s p r s'] dfu_open_armed [of s p r s']
    by (auto dest: isOpen_armed)
  from a [of s p] a [of s' q] b show ?thesis by blast
qed

theorem open_twice_fails_witness:
  "isOpen bench_frame
   \<and> sh2_i2c_hal_open bench bench_frame = Some (SH2_ERR, bench_frame)
   \<and> dfu_i2c_hal_open bench bench_frame = Some (SH2_ERR, bench_frame)
   \<and> (\<exists>s'. sh2_i2c_hal_open bench (power_on bench) = Some (SH2_OK, s')
          \<and> isOpen s' \<and> sh2_i2c_hal_open bench s' = Some (SH2_ERR, s')
          \<and> dfu_i2c_hal_open bench s' = Some (SH2_ERR, s'))"
proof -
  have c: "\<not> isOpen (power_on bench)" by (simp add: power_on_def)
  have f: "isOpen bench_frame" by (simp add: bench_frame_def)
  from sh2_open_returns [OF c clock_runs_bench]
  obtain s' where o: "sh2_i2c_hal_open bench (power_on bench) = Some (SH2_OK, s')" by blast
  from open_twice_fails [of "power_on bench" bench SH2_OK s' bench]
    open_twice_fails [of bench_frame bench] c f o
  show ?thesis by blast
qed

text \<open>
  Claim C9. Open of the normal instance, once past the already-open check, returns
  nothing but \<open>SH2_OK\<close>. With a running counter it does return; if the peripheral never
  signals data-ready, it returns \<open>SH2_OK\<close> with reset still marked in progress, the bus
  idle and nothing started, after the counter has moved at least \<open>START_DELAY_US\<close> past a
  reading taken during the call.
\<close>

theorem open_succeeds_without_edge:
  "(\<not> isOpen s \<and> sh2_i2c_hal_open p s = Some (r, s') \<longrightarrow> r = SH2_OK)
   \<and> (\<not> isOpen s \<and> clock_runs p \<longrightarrow>
        (\<exists>u n. sh2_i2c_hal_open p s = Some (SH2_OK, u)
           \<and> ((\<forall>k. \<not> intn p k) \<longrightarrow>
                 inReset u \<and> i2cBusState u = BUS_IDLE \<and> xfers u = xfers s
                 \<and> n \<le> tick u \<and> START_DELAY_US \<le> clock p (tick u) - clock p n)))"
proof -
  have a: "r = SH2_OK" if "\<not> isOpen s" and "sh2_i2c_hal_open p s = Some (r, s')"
    using sh2_open_armed [OF that] by simp
  have b: "\<exists>u n. sh2_i2c_hal_open p s = Some (SH2_OK, u)
           \<and> ((\<forall>k. \<not> intn p k) \<longrightarrow>
                 inReset u \<and> i2cBusState u = BUS_IDLE \<and> xfers u = xfers s
                 \<and> n \<le> tick u \<and> START_DELAY_US \<le> clock p (tick u) - clock p n)"
    if c: "\<not> isOpen s" and r: "clock_runs p"
  proof -
    from sh2_open_returns [OF c r] obtain u n
      where o: "sh2_i2c_hal_open p s = Some (SH2_OK, u)" and tk: "n \<le> tick u"
        and e: "inReset u \<longrightarrow> START_DELAY_US \<le> clock p (tick u) - clock p n" by blast
    from sh2_open_armed [OF c o] have ar: "armed p s u" by simp
    have "inReset u \<and> i2cBusState u = BUS_IDLE \<and> xfers u = xfers s
                 \<and> n \<le> tick u \<and> START_DELAY_US \<le> clock p (tick u) - clock p n"
      if "\<forall>k. \<not> intn p k"
      using ar e tk that by (auto simp: armed_def)
    with o show ?thesis by blast
  qed
  from a b show ?thesis by blast
qed

theorem open_succeeds_without_edge_witness:
  "\<not> isOpen (power_on bench) \<and> clock_runs bench \<and> (\<forall>k. \<not> intn bench k)
   \<and> (\<exists>u. sh2_i2c_hal_open bench (power_on bench) = Some (SH2_OK, u)
            \<and> inReset u \<and> i2cBusState u = BUS_IDLE)"
proof -
  have c: "\<not> isOpen (power_on bench)" by (simp add: power_on_def)
  have q: "\<forall>k. \<not> intn bench k" by (simp add: bench_def)
  from open_succeeds_without_edge [of "power_on bench" bench] c clock_runs_bench q
  show ?thesis by blast
qed

section \<open>Facts about runs\<close>

lemma take_intn_False [simp]: "take_intn p False s = s"
  by (simp add: take_intn_def)

lemma sh2_read_irq_False:
  "sh2_i2c_hal_read_irq p False False pBuffer len t s = sh2_i2c_hal_read pBuffer len t s"
  by (simp add: sh2_i2c_hal_read_irq_def sh2_i2c_hal_read_def Let_def)

lemma sh2_write_irq_False:
  "sh2_i2c_hal_write_irq p False pBuffer len s = sh2_i2c_hal_write p pBuffer len s"
  by (simp add: sh2_i2c_hal_write_irq_def sh2_i2c_hal_write_def Let_def split: option.splits)

lemma dfu_read_irq_False:
  "dfu_i2c_hal_read_irq p False pBuffer len t s = dfu_i2c_hal_read pBuffer len t s"
  by (simp add: dfu_i2c_hal_read_irq_def dfu_i2c_hal_read_def Let_def)

lemma dfu_write_irq_False:
  "dfu_i2c_hal_write_irq p False pBuffer len s = dfu_i2c_hal_write p pBuffer len s"
  by (simp add: dfu_i2c_hal_write_irq_def dfu_i2c_hal_write_def Let_def split: option.splits)

lemma ok_EXTI: "outstanding_ok s \<Longrightarrow> outstanding_ok (HAL_GPIO_EXTI_Callback p s)"
  by (auto simp: outstanding_ok_def reading_def writing_def HAL_GPIO_EXTI_Callback_def
        Let_def hw_defs split: if_splits)

lemma ok_take_intn: "outstanding_ok s \<Longrightarrow> outstanding_ok (take_intn p edge s)"
  by (simp add: take_intn_def ok_EXTI)

lemma ok_RxCplt:
  "outstanding_ok s \<Longrightarrow> i2c_rx_done bytes s = Some u \<Longrightarrow>
   outstanding_ok (HAL_I2C_MasterRxCpltCallback p u)"
  by (cases "xfers s"; cases "hd (xfers s)")
     (auto simp: outstanding_ok_def reading_def writing_def HAL_I2C_MasterRxCpltCallback_def
        i2c_rx_done_def Let_def split: if_splits)

lemma ok_TxCplt:
  "outstanding_ok s \<Longrightarrow> outstanding_ok (HAL_I2C_MasterTxCpltCallback (i2c_tx_done s))"
  by (cases "xfers s"; cases "hd (xfers s)")
     (auto simp: outstanding_ok_def reading_def writing_def HAL_I2C_MasterTxCpltCallback_def
        i2c_tx_done_def Let_def split: if_splits)

lemma ok_disableInts: "outstanding_ok (disableInts s) = outstanding_ok s"
  by (simp add: outstanding_ok_def disableInts_def)

lemma ok_sh2_read_tail:
  "outstanding_ok s \<Longrightarrow>
   outstanding_ok (if rxDataReady s then
                  (if i2cBusState s = BUS_IDLE then
                     HAL_I2C_Master_Receive_IT (i2cAddr s) READ_LEN
                           (s\<lparr>rxDataReady := False, i2cBusState := BUS_READING_LEN\<rparr>)
                   else if i2cBusState s = BUS_GOT_LEN then
                     HAL_I2C_Master_Receive_IT (i2cAddr s) (payloadLen s)
                           (s\<lparr>rxDataReady := False, i2cBusState := BUS_READING_TRANSFER\<rparr>)
                   else s)
                else s)"
  by (auto simp: outstanding_ok_def reading_def writing_def hw_defs split: if_splits)

lemma ok_sh2_read:
  "outstanding_ok s \<Longrightarrow>
   outstanding_ok (snd (snd (snd (sh2_i2c_hal_read_irq p pend False pBuffer len t s))))"
proof -
  assume ok: "outstanding_ok s"
  define s2 where "s2 = (if rxBufLen (disableInts s) > 0 then (disableInts s)\<lparr>rxBufLen := 0\<rparr>
                         else disableInts s)"
  have "outstanding_ok s2" using ok by (simp add: s2_def outstanding_ok_def disableInts_def)
  then have "outstanding_ok (enableInts s2)" by (simp add: outstanding_ok_def enableInts_def)
  then have ok3: "outstanding_ok (take_intn p pend (enableInts s2))" by (rule ok_take_intn)
  have "snd (snd (snd (sh2_i2c_hal_read_irq p pend False pBuffer len t s)))
        = (let s3 = take_intn p pend (enableInts s2) in
            (if rxDataReady s3 then
                  (if i2cBusState s3 = BUS_IDLE then
                     HAL_I2C_Master_Receive_IT (i2cAddr s3) READ_LEN
                           (s3\<lparr>rxDataReady := False, i2cBusState := BUS_READING_LEN\<rparr>)
                   else if i2cBusState s3 = BUS_GOT_LEN then
                     HAL_I2C_Master_Receive_IT (i2cAddr s3) (payloadLen s3)
                           (s3\<lparr>rxDataReady := False, i2cBusState := BUS_READING_TRANSFER\<rparr>)
                   else s3)
                else s3))"
    by (simp add: sh2_i2c_hal_read_irq_def s2_def Let_def)
  with ok_sh2_read_tail [OF ok3] show ?thesis by (simp add: Let_def)
qed

lemma ok_dfu_read:
  "outstanding_ok s \<Longrightarrow>
   outstanding_ok (snd (snd (snd (dfu_i2c_hal_read_irq p False pBuffer len t s))))"
  by (auto simp: outstanding_ok_def reading_def writing_def dfu_i2c_hal_read_irq_def
        Let_def hw_defs split: if_splits)

lemma ok_sh2_write:
  "outstanding_ok s \<Longrightarrow> outstanding_ok (snd (sh2_i2c_hal_write_irq p False pBuffer len s))"
  by (auto simp: outstanding_ok_def reading_def writing_def sh2_i2c_hal_write_irq_def
        Let_def hw_defs split: if_splits option.splits)

lemma ok_dfu_write:
  "outstanding_ok s \<Longrightarrow> outstanding_ok (snd (dfu_i2c_hal_write_irq p False pBuffer len s))"
  by (auto simp: outstanding_ok_def reading_def writing_def dfu_i2c_hal_write_irq_def
        Let_def hw_defs split: if_splits option.splits)

lemma ok_tick: "outstanding_ok (s\<lparr>tick := n\<rparr>) = outstanding_ok s"
  by (simp add: outstanding_ok_def)

lemma ok_step:
  "outstanding_ok s \<Longrightarrow> \<not> in_window ev \<Longrightarrow> step p ev s = Some s' \<Longrightarrow> outstanding_ok s'"
proof -
  assume ok: "outstanding_ok s" and w: "\<not> in_window ev" and st: "step p ev s = Some s'"
  let ?s = "s\<lparr>tick := tick s + 1\<rparr>"
  have ok': "outstanding_ok ?s" using ok by (simp add: ok_tick)
  from st have f: "fire p ev ?s = Some s'" by (simp add: step_def)
  show ?thesis
  proof (cases ev)
    case (RxCplt bytes)
    with f ok' show ?thesis by (auto split: if_splits intro: ok_RxCplt)
  qed (use f ok' w in \<open>auto simp: ok_take_intn ok_TxCplt ok_sh2_read ok_dfu_read
         ok_sh2_write ok_dfu_write split: if_splits\<close>)
qed

lemma ok_run:
  "outstanding_ok s \<Longrightarrow> list_all (\<lambda>ev. \<not> in_window ev) evs \<Longrightarrow> run p evs s = Some s' \<Longrightarrow>
   outstanding_ok s'"
proof (induction evs arbitrary: s)
  case Nil
  then show ?case by simp
next
  case (Cons ev evs)
  from Cons.prems(3) obtain u where u: "step p ev s = Some u" and r: "run p evs u = Some s'"
    by (auto simp: bind_eq_Some_conv)
  from Cons.prems(1,2) u have "outstanding_ok u" by (auto intro: ok_step)
  with Cons.IH [OF _ _ r] Cons.prems(2) show ?case by simp
qed

lemma exti_irq_EXTI [simp]: "exti_irq (HAL_GPIO_EXTI_Callback p s) = exti_irq s"
  by (simp add: HAL_GPIO_EXTI_Callback_def Let_def hw_defs)

lemma exti_irq_take_intn [simp]: "exti_irq (take_intn p edge s) = exti_irq s"
  by (simp add: take_intn_def)

lemma take_intn_masked: "\<not> exti_irq s \<Longrightarrow> take_intn p edge s = s"
  by (simp add: take_intn_def)

lemma exti_irq_rx_done: "i2c_rx_done bytes s = Some u \<Longrightarrow> exti_irq u = exti_irq s"
  by (auto simp: i2c_rx_done_def split: list.splits xfer.splits if_splits)

lemma exti_irq_fire_masked:
  "\<not> exti_irq s \<Longrightarrow> \<not> enables_edge ev \<Longrightarrow> fire p ev s = Some s' \<Longrightarrow> \<not> exti_irq s'"
  by (cases ev)
     (auto simp: HAL_I2C_MasterRxCpltCallback_def HAL_I2C_MasterTxCpltCallback_def
        i2c_tx_done_def sh2_i2c_hal_write_irq_def dfu_i2c_hal_read_irq_def
        dfu_i2c_hal_write_irq_def Let_def hw_defs
        dest: exti_irq_rx_done split: if_splits option.splits list.splits xfer.splits)

lemma exti_irq_fire_live:
  "exti_irq s \<Longrightarrow> fire p ev s = Some s' \<Longrightarrow> exti_irq s'"
  by (cases ev)
     (auto simp: HAL_I2C_MasterRxCpltCallback_def HAL_I2C_MasterTxCpltCallback_def
        i2c_tx_done_def sh2_i2c_hal_read_irq_def sh2_i2c_hal_write_irq_def
        dfu_i2c_hal_read_irq_def dfu_i2c_hal_write_irq_def Let_def hw_defs
        dest: exti_irq_rx_done split: if_splits option.splits list.splits xfer.splits)

lemma exti_irq_run_masked:
  "\<not> exti_irq s \<Longrightarrow> list_all (\<lambda>ev. \<not> enables_edge ev) evs \<Longrightarrow> run p evs s = Some s' \<Longrightarrow>
   \<not> exti_irq s'"
proof (induction evs arbitrary: s)
  case Nil
  then show ?case by simp
next
  case (Cons ev evs)
  from Cons.prems(3) obtain u where u: "step p ev s = Some u" and r: "run p evs u = Some s'"
    by (auto simp: bind_eq_Some_conv)
  from u Cons.prems(1,2) have "\<not> exti_irq u"
    using exti_irq_fire_masked [where s = "s\<lparr>tick := tick s + 1\<rparr>" and ev = ev and p = p and s' = u] by (simp add: step_def)
  with Cons.IH [OF _ _ r] Cons.prems(2) show ?case by simp
qed

lemma exti_irq_run_live: "exti_irq s \<Longrightarrow> run p evs s = Some s' \<Longrightarrow> exti_irq s'"
proof (induction evs arbitrary: s)
  case Nil
  then show ?case by simp
next
  case (Cons ev evs)
  from Cons.prems(2) obtain u where u: "step p ev s = Some u" and r: "run p evs u = Some s'"
    by (auto simp: bind_eq_Some_conv)
  from u Cons.prems(1) have "exti_irq u"
    using exti_irq_fire_live [where s = "s\<lparr>tick := tick s + 1\<rparr>" and ev = ev and p = p and s' = u] by (simp add: step_def)
  with Cons.IH [OF _ r] show ?case by simp
qed

lemmas run_eval = sh2_session_def dfu_session_def sh2_i2c_hal_open_def dfu_i2c_hal_open_def
  sh2_i2c_hal_close_def dfu_i2c_hal_close_def power_on_def bench_def step_def take_intn_def
  HAL_GPIO_EXTI_Callback_def HAL_I2C_MasterRxCpltCallback_def HAL_I2C_MasterTxCpltCallback_def
  i2c_rx_done_def i2c_tx_done_def memcpy_def Let_def sh2_i2c_hal_read_irq_def
  sh2_i2c_hal_write_irq_def dfu_i2c_hal_read_irq_def dfu_i2c_hal_write_irq_def

lemma idle_edge_handled:
  assumes "exti_irq s" and "i2cBusState s = BUS_IDLE"
  shows "\<exists>u. fire p Intn s = Some u \<and> i2cBusState u = BUS_READING_LEN
           \<and> xfers u = xfers s @ [Receive (i2cAddr s) READ_LEN]
           \<and> rxDataReady u = rxDataReady s"
  using assms by (simp add: take_intn_def HAL_GPIO_EXTI_Callback_def Let_def hw_defs)

section \<open>Close and open again\<close>

text \<open>
  Claim C6 says that after close and open the discard counter is 0. It is not: open
  never writes \<open>discards\<close>. In the session below the third edge arrives before the client
  has read the first frame, which makes the counter 1, and it is still 1 after close and
  open.
\<close>

theorem reopen_keeps_discards_counterexample:
  "map_option (discards \<circ> snd)
     (Option.bind
        (sh2_session bench [Intn, RxCplt [4, 0], Intn, RxCplt [1, 2, 3, 4], Intn])
        (sh2_i2c_hal_open bench \<circ> sh2_i2c_hal_close)) = Some 1"
  by (simp add: run_eval hw_defs loop_eval)

text \<open>
  Claim C6, as amended. After close followed by open of the same instance the receive
  buffer is empty, so that a read returns 0 and a frame buffered before close can no
  longer be retrieved, and the discard counter has the value it had before close. With
  a running counter the open does return.
\<close>

theorem reopen_empties_buffer:
  "(sh2_i2c_hal_open p (sh2_i2c_hal_close s) = Some (r, s') \<longrightarrow>
      r = SH2_OK \<and> rxBufLen s' = 0 \<and> discards s' = discards s
      \<and> fst (sh2_i2c_hal_read pBuffer len t s') = Inr 0)
   \<and> (dfu_i2c_hal_open p (dfu_i2c_hal_close s) = Some (r, s') \<longrightarrow>
      r = SH2_OK \<and> rxBufLen s' = 0 \<and> discards s' = discards s
      \<and> fst (dfu_i2c_hal_read pBuffer len t s') = Inr 0)
   \<and> (clock_runs p \<longrightarrow>
        (\<exists>u. sh2_i2c_hal_open p (sh2_i2c_hal_close s) = Some (SH2_OK, u))
        \<and> (\<exists>u. dfu_i2c_hal_open p (dfu_i2c_hal_close s) = Some (SH2_OK, u)))"
proof -
  have c1: "\<not> isOpen (sh2_i2c_hal_close s)" and d1: "discards (sh2_i2c_hal_close s) = discards s"
    by (simp_all add: sh2_i2c_hal_close_def Let_def hw_defs)
  have c2: "\<not> isOpen (dfu_i2c_hal_close s)" and d2: "discards (dfu_i2c_hal_close s) = discards s"
    by (simp_all add: dfu_i2c_hal_close_def Let_def hw_defs)
  have a: "r = SH2_OK \<and> rxBufLen s' = 0 \<and> discards s' = discards s
      \<and> fst (sh2_i2c_hal_read pBuffer len t s') = Inr 0"
    if "sh2_i2c_hal_open p (sh2_i2c_hal_close s) = Some (r, s')"
  proof -
    from sh2_open_armed [OF c1 that] have "r = SH2_OK" and "armed p (sh2_i2c_hal_close s) s'"
      by simp_all
    then show ?thesis using d1
      by (simp add: armed_def sh2_i2c_hal_read_def Let_def hw_defs)
  qed
  have b: "r = SH2_OK \<and> rxBufLen s' = 0 \<and> discards s' = discards s
      \<and> fst (dfu_i2c_hal_read pBuffer len t s') = Inr 0"
    if "dfu_i2c_hal_open p (dfu_i2c_hal_close s) = Some (r, s')"
  proof -
    from dfu_open_armed [OF c2 that] have "r = SH2_OK" and "armed p (dfu_i2c_hal_close s) s'"
      by simp_all
    then show ?thesis using d2
      by (simp add: armed_def dfu_i2c_hal_read_def Let_def hw_defs)
  qed
  have c: "(\<exists>u. sh2_i2c_hal_open p (sh2_i2c_hal_close s) = Some (SH2_OK, u))
        \<and> (\<exists>u. dfu_i2c_hal_open p (dfu_i2c_hal_close s) = Some (SH2_OK, u))" if "clock_runs p"
    using sh2_open_returns [OF c1 that] dfu_open_returns [OF c2 that] by blast
  from a b c show ?thesis by blast
qed

theorem reopen_empties_buffer_witness:
  "clock_runs bench
   \<and> rxBufLen (bench_frame\<lparr>discards := 1\<rparr>) = 4
   \<and> (\<exists>u. sh2_i2c_hal_open bench (sh2_i2c_hal_close (bench_frame\<lparr>discards := 1\<rparr>))
              = Some (SH2_OK, u)
          \<and> rxBufLen u = 0 \<and> discards u = 1 \<and> fst (sh2_i2c_hal_read [9, 9, 9, 9] 4 0 u) = Inr 0)
   \<and> (\<exists>u. dfu_i2c_hal_open bench (dfu_i2c_hal_close (bench_frame\<lparr>discards := 1\<rparr>))
              = Some (SH2_OK, u)
          \<and> rxBufLen u = 0 \<and> discards u = 1)"
proof -
  have d: "discards (bench_frame\<lparr>discards := 1\<rparr>) = 1" and l: "rxBufLen (bench_frame\<lparr>discards := 1\<rparr>) = 4"
    by (simp_all add: bench_frame_def)
  from reopen_empties_buffer [of bench "bench_frame\<lparr>discards := 1\<rparr>" SH2_OK _ "[9, 9, 9, 9]" 4 0]
    clock_runs_bench d l
  show ?thesis by metis
qed

section \<open>Edges and the two instances\<close>

text \<open>
  Claim C7 says that under the update instance an edge in the idle state marks data
  pending. It does not: open of the update instance enables only the I2C interrupts, so
  the edge runs no handler. After the edge the pending-data flag is still clear, the bus
  is still idle and nothing has been started.
\<close>

theorem update_edge_not_pending_counterexample:
  "map_option rxDataReady (dfu_session bench [Intn]) = Some False
   \<and> map_option i2cBusState (dfu_session bench [Intn]) = Some BUS_IDLE
   \<and> map_option xfers (dfu_session bench [Intn]) = Some []"
  by (simp add: run_eval hw_defs loop_eval)

text \<open>
  Claim C7, as amended. Open of the update instance, started with the edge interrupt
  disabled, returns with the bus idle, nothing started and the pending-data flag clear,
  and from then on, as long as the read of the normal instance is not called, an edge
  is not handled at all: it starts no transfer, does not set the flag and leaves the
  state as it is. Only under the normal instance, whose open enables the edge interrupt,
  does an edge in the idle state start the two-byte length read and move the state to
  \<open>BUS_READING_LEN\<close>, the flag staying as it was.
\<close>

theorem edge_reaches_normal_instance_only:
  "(\<not> isOpen s0 \<and> \<not> exti_irq s0 \<and> clock_runs p \<longrightarrow>
      (\<exists>s. dfu_i2c_hal_open p s0 = Some (SH2_OK, s)
         \<and> i2cBusState s = BUS_IDLE \<and> xfers s = xfers s0 \<and> \<not> rxDataReady s
         \<and> (\<forall>evs s'. list_all (\<lambda>ev. \<not> enables_edge ev) evs \<and> run p evs s = Some s'
               \<longrightarrow> fire p Intn s' = Some s')))
   \<and> (\<not> isOpen s0 \<and> clock_runs p \<longrightarrow>
      (\<exists>s. sh2_i2c_hal_open p s0 = Some (SH2_OK, s)
         \<and> (\<forall>evs s'. run p evs s = Some s' \<and> i2cBusState s' = BUS_IDLE
               \<longrightarrow> (\<exists>u. fire p Intn s' = Some u \<and> i2cBusState u = BUS_READING_LEN
                      \<and> xfers u = xfers s' @ [Receive (i2cAddr s') READ_LEN]
                      \<and> rxDataReady u = rxDataReady s'))))"
proof -
  have a: "\<exists>s. dfu_i2c_hal_open p s0 = Some (SH2_OK, s)
         \<and> i2cBusState s = BUS_IDLE \<and> xfers s = xfers s0 \<and> \<not> rxDataReady s
         \<and> (\<forall>evs s'. list_all (\<lambda>ev. \<not> enables_edge ev) evs \<and> run p evs s = Some s'
               \<longrightarrow> fire p Intn s' = Some s')"
    if c: "\<not> isOpen s0" and e: "\<not> exti_irq s0" and r: "clock_runs p"
  proof -
    from dfu_open_returns [OF c r] obtain s
      where o: "dfu_i2c_hal_open p s0 = Some (SH2_OK, s)" by blast
    from dfu_open_armed [OF c o] have ar: "armed p s0 s" and ex: "exti_irq s = exti_irq s0"
      by simp_all
    from ar ex e have st: "i2cBusState s = BUS_IDLE \<and> xfers s = xfers s0 \<and> \<not> rxDataReady s"
      by (auto simp: armed_def)
    have "fire p Intn s' = Some s'"
      if "list_all (\<lambda>ev. \<not> enables_edge ev) evs" and "run p evs s = Some s'" for evs s'
    proof -
      from ex e have "\<not> exti_irq s" by simp
      then have "\<not> exti_irq s'" using that by (rule exti_irq_run_masked)
      then show ?thesis by (simp add: take_intn_masked)
    qed
    with o st show ?thesis by blast
  qed
  have b: "\<exists>s. sh2_i2c_hal_open p s0 = Some (SH2_OK, s)
         \<and> (\<forall>evs s'. run p evs s = Some s' \<and> i2cBusState s' = BUS_IDLE
               \<longrightarrow> (\<exists>u. fire p Intn s' = Some u \<and> i2cBusState u = BUS_READING_LEN
                      \<and> xfers u = xfers s' @ [Receive (i2cAddr s') READ_LEN]
                      \<and> rxDataReady u = rxDataReady s'))"
    if c: "\<not> isOpen s0" and r: "clock_runs p"
  proof -
    from sh2_open_returns [OF c r] obtain s
      where o: "sh2_i2c_hal_open p s0 = Some (SH2_OK, s)" by blast
    from sh2_open_armed [OF c o] have ex: "exti_irq s" by simp
    have "\<exists>u. fire p Intn s' = Some u \<and> i2cBusState u = BUS_READING_LEN
                      \<and> xfers u = xfers s' @ [Receive (i2cAddr s') READ_LEN]
                      \<and> rxDataReady u = rxDataReady s'"
      if "run p evs s = Some s'" and "i2cBusState s' = BUS_IDLE" for evs s'
    proof -
      from ex that(1) have "exti_irq s'" by (rule exti_irq_run_live)
      then show ?thesis using that(2) by (rule idle_edge_handled)
    qed
    with o show ?thesis by blast
  qed
  from a b show ?thesis by blast
qed

theorem edge_reaches_normal_instance_only_witness:
  "\<not> isOpen (power_on bench) \<and> \<not> exti_irq (power_on bench) \<and> clock_runs bench
   \<and> (\<exists>s s'. dfu_i2c_hal_open bench (power_on bench) = Some (SH2_OK, s)
          \<and> run bench [DfuWrite (Some [7]) 1 True, TxCplt, DfuRead [] 4 0 True] s = Some s'
          \<and> fire bench Intn s' = Some s')
   \<and> (\<exists>s u. sh2_i2c_hal_open bench (power_on bench) = Some (SH2_OK, s)
          \<and> i2cBusState s = BUS_IDLE
          \<and> fire bench Intn s = Some u \<and> i2cBusState u = BUS_READING_LEN
          \<and> xfers u = xfers s @ [Receive (i2cAddr s) READ_LEN])"
proof -
  let ?evs = "[DfuWrite (Some [7]) 1 True, TxCplt, DfuRead [] 4 0 True]"
  have c: "\<not> isOpen (power_on bench)" and e: "\<not> exti_irq (power_on bench)"
    by (simp_all add: power_on_def)
  note t = edge_reaches_normal_instance_only [of "power_on bench" bench]
  from t c e clock_runs_bench obtain s
    where o: "dfu_i2c_hal_open bench (power_on bench) = Some (SH2_OK, s)"
      and q: "\<forall>evs s'. list_all (\<lambda>ev. \<not> enables_edge ev) evs \<and> run bench evs s = Some s'
               \<longrightarrow> fire bench Intn s' = Some s'"
    by blast
  have "\<exists>s'. run bench ?evs s = Some s'"
    by (simp add: step_def i2c_tx_done_def split: if_splits list.splits xfer.splits)
  then obtain s' where r: "run bench ?evs s = Some s'" by blast
  have l: "list_all (\<lambda>ev. \<not> enables_edge ev) ?evs" by simp
  from q l r have f: "fire bench Intn s' = Some s'" by blast
  from t c clock_runs_bench obtain n
    where o2: "sh2_i2c_hal_open bench (power_on bench) = Some (SH2_OK, n)"
      and q2: "\<forall>evs s'. run bench evs n = Some s' \<and> i2cBusState s' = BUS_IDLE
               \<longrightarrow> (\<exists>u. fire bench Intn s' = Some u \<and> i2cBusState u = BUS_READING_LEN
                      \<and> xfers u = xfers s' @ [Receive (i2cAddr s') READ_LEN]
                      \<and> rxDataReady u = rxDataReady s')"
    by blast
  have "armed bench (power_on bench) n" using sh2_open_armed [OF c o2] by simp
  then have idle: "i2cBusState n = BUS_IDLE" by (auto simp: armed_def bench_def)
  have rn: "run bench [] n = Some n" by simp
  from q2 rn idle obtain u where "fire bench Intn n = Some u" "i2cBusState u = BUS_READING_LEN"
      "xfers u = xfers n @ [Receive (i2cAddr n) READ_LEN]" by blast
  with c e clock_runs_bench o r f o2 idle show ?thesis by blast
qed

section \<open>One transfer at a time\<close>


text \<open>
  Where no edge falls between a test of the bus state and its assignment, the bus state
  and the outstanding transfers stay in step: from the state in which open of either
  instance has returned, the instance having been closed with no transfer on the bus, at
  most one transfer is outstanding after any such run, and none while the bus is idle.
\<close>

lemma unpreempted_run_keeps_one_transfer:
  assumes "\<not> isOpen s0" and "xfers s0 = []"
    and "sh2_i2c_hal_open p s0 = Some (r, s) \<or> dfu_i2c_hal_open p s0 = Some (r, s)"
    and "list_all (\<lambda>ev. \<not> in_window ev) evs" and "run p evs s = Some s'"
  shows "length (xfers s') \<le> 1 \<and> (i2cBusState s' = BUS_IDLE \<longrightarrow> xfers s' = [])"
proof -
  from assms(1,3) have "armed p s0 s"
    using sh2_open_armed [of s0 p r s] dfu_open_armed [of s0 p r s] by blast
  then have "outstanding_ok s" using assms(2) by (rule armed_outstanding_ok)
  then have "outstanding_ok s'" using assms(4,5) by (rule ok_run)
  then show ?thesis by (rule outstanding_ok_bound)
qed

end
